theory Spec2Isabelle
  imports Complex_Main "HOL-Library.Char_ord" "HOL-Library.List_Lexorder" "HOL-Library.Monad_Syntax"
begin

section \<open>Contour (src/utils/Contour.cpp)\<close>

text \<open>
  The skyline is a vector of segments \<open>[start, end) \<rightarrow> height\<close> together with two cached
  maxima. Coordinates are C++ \<open>int\<close>; the contour code only compares and copies them,
  so they are modelled as \<open>int\<close>. The segment type itself is declared in Contour.hpp: it
  is a plain triple built by \<open>ContourSegment(start, end, height)\<close>.
\<close>

record ContourSegment =
  seg_start :: int
  seg_end :: int
  seg_height :: int

record Contour =
  segments :: "ContourSegment list"
  maxCoordinate :: int
  maxHeight :: int

definition mkSegment :: "int \<Rightarrow> int \<Rightarrow> int \<Rightarrow> ContourSegment" where
  "mkSegment s e h = \<lparr>seg_start = s, seg_end = e, seg_height = h\<rparr>"

text \<open>The constructor: no segments, both maxima 0.\<close>

definition emptyContour :: Contour where
  "emptyContour = \<lparr>segments = [], maxCoordinate = 0, maxHeight = 0\<rparr>"

text \<open>\<open>Contour::clear\<close>.\<close>

definition clear :: "Contour \<Rightarrow> Contour" where
  "clear c = c\<lparr>segments := [], maxCoordinate := 0, maxHeight := 0\<rparr>"

text \<open>
  \<open>Contour::mergeSegments\<close>. The loop keeps \<open>mergedSegments.back()\<close> in \<open>lst\<close>; the
  segments pushed before it are already final and are emitted in front.
\<close>

fun mergeFrom :: "ContourSegment \<Rightarrow> ContourSegment list \<Rightarrow> ContourSegment list" where
  "mergeFrom lst [] = [lst]"
| "mergeFrom lst (current # rest) =
     (if seg_end lst = seg_start current \<and> seg_height lst = seg_height current
      then mergeFrom (lst\<lparr>seg_end := seg_end current\<rparr>) rest
      else lst # mergeFrom current rest)"

definition mergeSegments :: "Contour \<Rightarrow> Contour" where
  "mergeSegments c =
     (case segments c of
        [] \<Rightarrow> c
      | [s] \<Rightarrow> c
      | s # rest \<Rightarrow> c\<lparr>segments := mergeFrom s rest\<rparr>)"

text \<open>
  The \<open>for\<close> loop of \<open>Contour::addSegment\<close> over the old segments, with the flag
  \<open>inserted\<close>; the result is \<open>newSegments\<close> in push order, the push after the loop
  included.
\<close>

fun addLoop :: "int \<Rightarrow> int \<Rightarrow> int \<Rightarrow> bool \<Rightarrow> ContourSegment list \<Rightarrow> ContourSegment list" where
  "addLoop start end' height inserted [] =
     (if \<not> inserted then [mkSegment start end' height] else [])"
| "addLoop start end' height inserted (segment # rest) =
     (if seg_end segment \<le> start then
        segment # addLoop start end' height inserted rest
      else if seg_start segment \<ge> end' then
        (if \<not> inserted then [mkSegment start end' height] else [])
        @ segment # addLoop start end' height True rest
      else
        (if seg_start segment < start
         then [mkSegment (seg_start segment) start (seg_height segment)] else [])
        @ (if \<not> inserted then [mkSegment start end' height] else [])
        @ (if seg_end segment > end'
           then [mkSegment end' (seg_end segment) (seg_height segment)] else [])
        @ addLoop start end' height True rest)"

text \<open>
  \<open>Contour::addSegment\<close>. \<open>std::sort\<close> by \<open>start\<close> is modelled by the insertion sort
  \<open>sort_key\<close>; the two agree whenever the starts are pairwise distinct.
\<close>

definition addSegment :: "Contour \<Rightarrow> int \<Rightarrow> int \<Rightarrow> int \<Rightarrow> Contour" where
  "addSegment c start end' height =
     (if start \<ge> end' then c
      else
        let c1 = c\<lparr>maxCoordinate := max (maxCoordinate c) end',
                   maxHeight := max (maxHeight c) height\<rparr>
        in if segments c1 = [] then c1\<lparr>segments := [mkSegment start end' height]\<rparr>
           else mergeSegments
                  (c1\<lparr>segments := sort_key seg_start
                                     (addLoop start end' height False (segments c1))\<rparr>))"

text \<open>
  \<open>std::lower_bound\<close> with the comparator \<open>a.start < b.start\<close>: the index of the first
  segment whose start is not below the coordinate (on a vector sorted by start).
\<close>

definition lower_bound :: "ContourSegment list \<Rightarrow> int \<Rightarrow> nat" where
  "lower_bound segs coordinate = length (takeWhile (\<lambda>s. seg_start s < coordinate) segs)"

fun scanHeight :: "ContourSegment list \<Rightarrow> int \<Rightarrow> int \<Rightarrow> int" where
  "scanHeight [] end' m = m"
| "scanHeight (s # rest) end' m =
     (if seg_start s < end' then scanHeight rest end' (max m (seg_height s)) else m)"

text \<open>\<open>Contour::getHeight\<close>.\<close>

definition getHeight :: "Contour \<Rightarrow> int \<Rightarrow> int \<Rightarrow> int" where
  "getHeight c start end' =
     (if start \<ge> end' then 0
      else if segments c = [] then 0
      else
        let segs = segments c;
            i = lower_bound segs start;
            j = (if i \<noteq> 0 \<and> (i = length segs \<or> seg_start (segs ! i) > start)
                 then (if seg_end (segs ! (i - 1)) \<le> start then i else i - 1)
                 else i)
        in scanHeight (drop j segs) end' 0)"

text \<open>
  Observations used to state what \<open>addSegment\<close> does. \<open>sortedDisjoint\<close> is the class
  invariant (segments are non-empty intervals, sorted by start, pairwise disjoint);
  \<open>heightAt segs p\<close> is the height of the segment that covers the point \<open>p\<close>, if any;
  \<open>fused\<close> says that no two neighbours touch at equal height.
\<close>

fun sortedDisjoint :: "ContourSegment list \<Rightarrow> bool" where
  "sortedDisjoint [] = True"
| "sortedDisjoint [s] = (seg_start s < seg_end s)"
| "sortedDisjoint (s # t # rest) =
     (seg_start s < seg_end s \<and> seg_end s \<le> seg_start t \<and> sortedDisjoint (t # rest))"

definition covers :: "ContourSegment \<Rightarrow> int \<Rightarrow> bool" where
  "covers s p = (seg_start s \<le> p \<and> p < seg_end s)"

definition heightAt :: "ContourSegment list \<Rightarrow> int \<Rightarrow> int option" where
  "heightAt segs p = map_option seg_height (find (\<lambda>s. covers s p) segs)"

fun fused :: "ContourSegment list \<Rightarrow> bool" where
  "fused [] = True"
| "fused [s] = True"
| "fused (s # t # rest) =
     (\<not> (seg_end s = seg_start t \<and> seg_height s = seg_height t) \<and> fused (t # rest))"

section \<open>HB*-tree (src/data_struct/HBStarTree.cpp, HBStarTreeNode.cpp)\<close>

text \<open>
  HBStarTreeCore.cpp repeats member functions of HBStarTree.cpp word for word; one model
  serves both. Node objects sit behind \<open>shared_ptr\<close> and point at each other, so they
  are kept in an object store: a node pointer is a natural number, \<open>nullptr\<close> is
  \<open>None\<close>, \<open>heap\<close> maps a pointer to the node object and \<open>nextPtr\<close> is the pointer
  that the next \<open>make_shared\<close> hands out. The parent link is a \<open>weak_ptr\<close>; that it
  expires when the parent object is destroyed is not modelled, a parent link is a plain
  pointer here.

  Walks along links (up to the root, down a skewed chain, through a queue) do not end
  on a store that has a cycle, and \<open>moveNode\<close> can build one. Such walks are
  \<open>partial_function (option)\<close>, \<open>None\<close> meaning that the call does not return, and
  every operation that runs one returns an \<open>option\<close>.

  Coordinates are C++ \<open>int\<close>. Sums like \<open>x + width\<close> overflow only by undefined
  behaviour, so they are taken in \<open>int\<close> without wrap-around.
\<close>

datatype HBNodeType = MODULE | HIERARCHY | CONTOUR

text \<open>
  Modelled from the spec: Module.hpp is not among the sources. A module is a rectangle
  with a lower-left position, a width, a height and a rotation flag; \<open>rotate()\<close> swaps
  width and height and flips the flag; the area is width times height. The name of a
  module is the key under which the tree stores it.
\<close>

record Module =
  mod_x :: int
  mod_y :: int
  mod_width :: int
  mod_height :: int
  mod_rotated :: bool

definition getArea :: "Module \<Rightarrow> int" where
  "getArea m = mod_width m * mod_height m"

definition setPosition :: "Module \<Rightarrow> int \<Rightarrow> int \<Rightarrow> Module" where
  "setPosition m x y = m\<lparr>mod_x := x, mod_y := y\<rparr>"

definition rotateM :: "Module \<Rightarrow> Module" where
  "rotateM m = m\<lparr>mod_width := mod_height m, mod_height := mod_width m,
                 mod_rotated := \<not> mod_rotated m\<rparr>"

text \<open>
  Modelled from the spec: SymmetryConstraint.hpp is not among the sources. The tree reads
  three things of a group: its name, its list of symmetry pairs, and its self-symmetric
  module names.
\<close>

record SymmetryGroup =
  grp_name :: string
  symmetryPairs :: "(string \<times> string) list"
  selfSymmetric :: "string list"

text \<open>
  A \<open>std::map\<close> with string keys: an association list kept sorted by key, so that
  iterating the list is iterating the map. \<open>smap_set\<close> is \<open>m[k] = v\<close>, looking up
  is \<open>map_of\<close>. Strings are ordered as \<open>std::string\<close> orders them, byte by byte.
  \<open>modules\<close> is such a map (\<open>getModules()\<close> returns it).
\<close>

fun smap_set :: "(string \<times> 'v) list \<Rightarrow> string \<Rightarrow> 'v \<Rightarrow> (string \<times> 'v) list" where
  "smap_set [] k v = [(k, v)]"
| "smap_set ((k', v') # m) k v =
     (if k = k' then (k, v) # m
      else if k < k' then (k, v) # (k', v') # m
      else (k', v') # smap_set m k v)"

type_synonym ModuleMap = "(string \<times> Module) list"

text \<open>
  ASFBStarTree is not among the sources. The calls that the HB*-tree makes on an ASF
  tree are a parameter \<open>ops\<close> of the model, over an arbitrary type \<open>'asf\<close> of ASF trees:
  construction (\<open>asfNew\<close>, \<open>asfAddModule\<close>, \<open>asfConstructInitialTree\<close>), \<open>pack()\<close>,
  \<open>getModules()\<close> (the names of the island's modules), the segments of
  \<open>getContours().first\<close>, the symmetry axis position and \<open>rotateModule\<close> with its
  success flag. \<open>packSubtree\<close> converts the axis position by \<open>static_cast<int>\<close>, so it
  is not an \<open>int\<close>; it is taken to be a \<open>double\<close>, and a finite \<open>double\<close> is a
  rational number.
  An ASF tree holds the same \<open>Module\<close> objects as the HB*-tree; here these objects live
  in the one name-keyed store \<open>modules\<close>, which \<open>asfPack\<close> and \<open>asfRotateModule\<close>
  take and return.
\<close>

record 'asf ASFOps =
  asfNew :: "SymmetryGroup \<Rightarrow> 'asf"
  asfAddModule :: "'asf \<Rightarrow> string \<Rightarrow> 'asf"
  asfConstructInitialTree :: "'asf \<Rightarrow> 'asf"
  asfPack :: "'asf \<Rightarrow> ModuleMap \<Rightarrow> 'asf \<times> ModuleMap"
  asfGetModules :: "'asf \<Rightarrow> string list"
  asfGetSegments :: "'asf \<Rightarrow> ContourSegment list"
  asfGetSymmetryAxisPosition :: "'asf \<Rightarrow> rat"
  asfRotateModule :: "'asf \<Rightarrow> string \<Rightarrow> ModuleMap \<Rightarrow> bool \<times> 'asf \<times> ModuleMap"

text \<open>
  \<open>HBStarTreeNode\<close> and its accessors (HBStarTreeNode.cpp). The kind-guarded accessors
  return the neutral value on a node of another kind, as in the source.
\<close>

record 'asf HBStarTreeNode =
  nodeType :: HBNodeType
  name :: string
  leftChild :: "nat option"
  rightChild :: "nat option"
  parent :: "nat option"
  asfTree :: "'asf option"
  contourX1 :: int
  contourY1 :: int
  contourX2 :: int
  contourY2 :: int

definition newNode :: "HBNodeType \<Rightarrow> string \<Rightarrow> 'asf HBStarTreeNode" where
  "newNode t nm = \<lparr>nodeType = t, name = nm, leftChild = None, rightChild = None,
     parent = None, asfTree = None,
     contourX1 = 0, contourY1 = 0, contourX2 = 0, contourY2 = 0\<rparr>"

definition getModuleName :: "'asf HBStarTreeNode \<Rightarrow> string" where
  "getModuleName nd = (if nodeType nd = MODULE then name nd else [])"

definition getASFTree :: "'asf HBStarTreeNode \<Rightarrow> 'asf option" where
  "getASFTree nd = (if nodeType nd \<noteq> HIERARCHY then None else asfTree nd)"

definition setASFTree :: "'asf HBStarTreeNode \<Rightarrow> 'asf option \<Rightarrow> 'asf HBStarTreeNode" where
  "setASFTree nd t = (if nodeType nd = HIERARCHY then nd\<lparr>asfTree := t\<rparr> else nd)"

definition setContour :: "'asf HBStarTreeNode \<Rightarrow> int \<Rightarrow> int \<Rightarrow> int \<Rightarrow> int \<Rightarrow> 'asf HBStarTreeNode" where
  "setContour nd x1 y1 x2 y2 =
     (if nodeType nd = CONTOUR
      then nd\<lparr>contourX1 := x1, contourY1 := y1, contourX2 := x2, contourY2 := y2\<rparr>
      else nd)"

definition getContour :: "'asf HBStarTreeNode \<Rightarrow> int \<times> int \<times> int \<times> int" where
  "getContour nd =
     (if nodeType nd = CONTOUR then (contourX1 nd, contourY1 nd, contourX2 nd, contourY2 nd)
      else (0, 0, 0, 0))"

text \<open>
  The members of \<open>HBStarTree\<close>. HBStarTree.hpp is not among the sources; the member
  types are read off their uses. \<open>moduleNodes\<close> and \<open>symmetryGroupNodes\<close> are indexed by
  name and iterated from \<open>begin()\<close>: they are taken to be \<open>std::map\<close> like \<open>modules\<close>.
  \<open>nodeMap\<close> is only indexed and searched, never iterated: a partial function.
  \<open>modifiedSubtrees\<close> is a set of node pointers that is iterated in pointer order (taken
  to be allocation order): a sorted list without duplicates, \<open>set_insert\<close> being its
  \<open>insert\<close>.
\<close>

record 'asf HBStarTree =
  modules :: ModuleMap
  symmetryGroups :: "SymmetryGroup list"
  root :: "nat option"
  horizontalContour :: Contour
  verticalContour :: Contour
  moduleNodes :: "(string \<times> nat) list"
  symmetryGroupNodes :: "(string \<times> nat) list"
  nodeMap :: "string \<rightharpoonup> nat"
  modifiedSubtrees :: "nat list"
  totalArea :: int
  isPacked :: bool
  heap :: "nat \<Rightarrow> 'asf HBStarTreeNode"
  nextPtr :: nat

definition emptyTree :: "'asf HBStarTree" where
  "emptyTree = \<lparr>modules = [], symmetryGroups = [], root = None,
     horizontalContour = emptyContour, verticalContour = emptyContour,
     moduleNodes = [], symmetryGroupNodes = [], nodeMap = Map.empty,
     modifiedSubtrees = [], totalArea = 0, isPacked = False,
     heap = (\<lambda>_. newNode CONTOUR []), nextPtr = 0\<rparr>"

definition getParent :: "'asf HBStarTree \<Rightarrow> nat \<Rightarrow> nat option" where
  "getParent st n = parent (heap st n)"

definition getLeftChild :: "'asf HBStarTree \<Rightarrow> nat \<Rightarrow> nat option" where
  "getLeftChild st n = leftChild (heap st n)"

definition getRightChild :: "'asf HBStarTree \<Rightarrow> nat \<Rightarrow> nat option" where
  "getRightChild st n = rightChild (heap st n)"

definition setLeftChild :: "'asf HBStarTree \<Rightarrow> nat \<Rightarrow> nat option \<Rightarrow> 'asf HBStarTree" where
  "setLeftChild st n c = st\<lparr>heap := (heap st)(n := (heap st n)\<lparr>leftChild := c\<rparr>)\<rparr>"

definition setRightChild :: "'asf HBStarTree \<Rightarrow> nat \<Rightarrow> nat option \<Rightarrow> 'asf HBStarTree" where
  "setRightChild st n c = st\<lparr>heap := (heap st)(n := (heap st n)\<lparr>rightChild := c\<rparr>)\<rparr>"

definition setParent :: "'asf HBStarTree \<Rightarrow> nat \<Rightarrow> nat option \<Rightarrow> 'asf HBStarTree" where
  "setParent st n p = st\<lparr>heap := (heap st)(n := (heap st n)\<lparr>parent := p\<rparr>)\<rparr>"

definition isLeftChild :: "'asf HBStarTree \<Rightarrow> nat \<Rightarrow> bool" where
  "isLeftChild st n =
     (case getParent st n of None \<Rightarrow> False | Some p \<Rightarrow> getLeftChild st p = Some n)"

definition isRightChild :: "'asf HBStarTree \<Rightarrow> nat \<Rightarrow> bool" where
  "isRightChild st n =
     (case getParent st n of None \<Rightarrow> False | Some p \<Rightarrow> getRightChild st p = Some n)"

definition allocNode :: "'asf HBStarTree \<Rightarrow> 'asf HBStarTreeNode \<Rightarrow> nat \<times> 'asf HBStarTree" where
  "allocNode st nd = (nextPtr st, st\<lparr>heap := (heap st)(nextPtr st := nd), nextPtr := Suc (nextPtr st)\<rparr>)"

definition set_insert :: "nat \<Rightarrow> nat list \<Rightarrow> nat list" where
  "set_insert n ns = (if n \<in> set ns then ns else insort n ns)"

text \<open>
  \<open>markSubtreeForRepack\<close>: the node and every ancestor go into \<open>modifiedSubtrees\<close>.
\<close>

partial_function (option) markSubtreeForRepack ::
  "'asf HBStarTree \<Rightarrow> nat option \<Rightarrow> 'asf HBStarTree option" where
  "markSubtreeForRepack st current =
     (case current of
        None \<Rightarrow> Some st
      | Some c \<Rightarrow>
          markSubtreeForRepack (st\<lparr>modifiedSubtrees := set_insert c (modifiedSubtrees st)\<rparr>)
            (getParent st c))"

declare markSubtreeForRepack.simps [code]

text \<open>
  The parts of \<open>repackAffectedSubtrees\<close>. \<open>hasModifiedAncestor\<close> is the inner
  \<open>while (parent)\<close> loop (its result is \<open>!isRoot\<close>), \<open>rootsToRepack\<close> the loop over
  the set, \<open>depthOf\<close> the depth count inside the comparator, \<open>sortByDepth\<close> the
  \<open>std::sort\<close>, deepest first. \<open>std::sort\<close> does not call the comparator on fewer than
  two elements, and it may order nodes of equal depth either way; the model keeps their
  order.
\<close>

partial_function (option) hasModifiedAncestor ::
  "'asf HBStarTree \<Rightarrow> nat option \<Rightarrow> bool option" where
  "hasModifiedAncestor st p =
     (case p of
        None \<Rightarrow> Some False
      | Some q \<Rightarrow> if q \<in> set (modifiedSubtrees st) then Some True
                  else hasModifiedAncestor st (getParent st q))"

declare hasModifiedAncestor.simps [code]

fun rootsToRepack :: "'asf HBStarTree \<Rightarrow> nat list \<Rightarrow> nat list option" where
  "rootsToRepack st [] = Some []"
| "rootsToRepack st (node # rest) =
     do { anc \<leftarrow> hasModifiedAncestor st (getParent st node);
          others \<leftarrow> rootsToRepack st rest;
          Some (if anc then others else node # others) }"

partial_function (option) depthOf :: "'asf HBStarTree \<Rightarrow> nat \<Rightarrow> nat \<Rightarrow> nat option" where
  "depthOf st currA depth =
     (case getParent st currA of
        None \<Rightarrow> Some depth
      | Some p \<Rightarrow> depthOf st p (Suc depth))"

declare depthOf.simps [code]

fun depths :: "'asf HBStarTree \<Rightarrow> nat list \<Rightarrow> (nat \<times> nat) list option" where
  "depths st [] = Some []"
| "depths st (n # ns) =
     do { d \<leftarrow> depthOf st n 0; ds \<leftarrow> depths st ns; Some ((d, n) # ds) }"

definition sortByDepth :: "'asf HBStarTree \<Rightarrow> nat list \<Rightarrow> nat list option" where
  "sortByDepth st ns =
     (if length ns \<le> 1 then Some ns
      else do { ds \<leftarrow> depths st ns;
                Some (map snd (sort_key (\<lambda>(d, n). - int d) ds)) })"


text \<open>
  \<open>packSubtree\<close>. \<open>xCoordinate\<close> is the x rule, which the source spells out twice (for
  Module and for Hierarchy nodes) with the same text. \<open>packNode\<close> is the \<open>switch\<close>; its
  flag is \<open>False\<close> where the source leaves \<open>packSubtree\<close> by \<open>return\<close> before the
  children are visited (module not registered, no ASF tree). \<open>modules[name]\<close> on an
  absent key would insert a null entry; Module nodes are created from keys of \<open>modules\<close>
  only, and the model lets the lookup fail instead.
\<close>

definition INT_MAX :: int where
  "INT_MAX = 2147483647"

text \<open>
  \<open>static_cast<int>\<close> of a \<open>double\<close> drops the fractional part (rounds toward zero).
  The conversion of a value outside the range of \<open>int\<close>, of an infinity or of a NaN is
  undefined behaviour and has no counterpart here.
\<close>

definition static_cast_int :: "rat \<Rightarrow> int" where
  "static_cast_int q = (if 0 \<le> q then \<lfloor>q\<rfloor> else \<lceil>q\<rceil>)"

definition xCoordinate :: "'asf ASFOps \<Rightarrow> 'asf HBStarTree \<Rightarrow> nat \<Rightarrow> int" where
  "xCoordinate ops st node =
     (case getParent st node of
        None \<Rightarrow> 0
      | Some p \<Rightarrow>
          let pn = heap st p in
          if isLeftChild st node then
            (if nodeType pn = MODULE then
               (case map_of (modules st) (getModuleName pn) of
                  Some parentModule \<Rightarrow> mod_x parentModule + mod_width parentModule
                | None \<Rightarrow> 0)
             else if nodeType pn = HIERARCHY then
               (case getASFTree pn of
                  Some parentAsfTree \<Rightarrow>
                    static_cast_int (asfGetSymmetryAxisPosition ops parentAsfTree)
                | None \<Rightarrow> 0)
             else if nodeType pn = CONTOUR then
               (case getContour pn of (x1, y1, x2, y2) \<Rightarrow> x2)
             else 0)
          else
            (if nodeType pn = MODULE then
               (case map_of (modules st) (getModuleName pn) of
                  Some parentModule \<Rightarrow> mod_x parentModule
                | None \<Rightarrow> 0)
             else if nodeType pn = HIERARCHY then 0
             else if nodeType pn = CONTOUR then
               (case getContour pn of (x1, y1, x2, y2) \<Rightarrow> x1)
             else 0))"

definition islandModules :: "'asf ASFOps \<Rightarrow> 'asf \<Rightarrow> ModuleMap \<Rightarrow> Module list" where
  "islandModules ops a ms = List.map_filter (map_of ms) (asfGetModules ops a)"

definition shiftModules :: "string list \<Rightarrow> int \<Rightarrow> int \<Rightarrow> ModuleMap \<Rightarrow> ModuleMap" where
  "shiftModules names deltaX deltaY ms =
     fold (\<lambda>k acc. case map_of acc k of
                      None \<Rightarrow> acc
                    | Some m \<Rightarrow> smap_set acc k (setPosition m (mod_x m + deltaX) (mod_y m + deltaY)))
          names ms"

definition packModuleNode :: "'asf ASFOps \<Rightarrow> 'asf HBStarTree \<Rightarrow> nat \<Rightarrow> bool \<times> 'asf HBStarTree" where
  "packModuleNode ops st node =
     (let moduleName = getModuleName (heap st node) in
      case map_of (modules st) moduleName of
        None \<Rightarrow> (False, st)
      | Some m \<Rightarrow>
          let x = xCoordinate ops st node;
              y = getHeight (horizontalContour st) x (x + mod_width m)
          in (True,
              st\<lparr>modules := smap_set (modules st) moduleName (setPosition m x y),
                 horizontalContour :=
                   addSegment (horizontalContour st) x (x + mod_width m) (y + mod_height m),
                 verticalContour :=
                   addSegment (verticalContour st) y (y + mod_height m) (x + mod_width m)\<rparr>))"

definition packHierarchyNode :: "'asf ASFOps \<Rightarrow> 'asf HBStarTree \<Rightarrow> nat \<Rightarrow> bool \<times> 'asf HBStarTree" where
  "packHierarchyNode ops st node =
     (case getASFTree (heap st node) of
        None \<Rightarrow> (False, st)
      | Some a0 \<Rightarrow>
          (case asfPack ops a0 (modules st) of (a, ms) \<Rightarrow>
             let st1 = st\<lparr>modules := ms,
                          heap := (heap st)(node := (heap st node)\<lparr>asfTree := Some a\<rparr>)\<rparr>;
                 island = islandModules ops a ms;
                 minX = fold (\<lambda>m acc. min acc (mod_x m)) island INT_MAX;
                 minY = fold (\<lambda>m acc. min acc (mod_y m)) island INT_MAX;
                 symMaxX = fold (\<lambda>m acc. max acc (mod_x m + mod_width m)) island 0;
                 symMaxY = fold (\<lambda>m acc. max acc (mod_y m + mod_height m)) island 0;
                 x = xCoordinate ops st1 node;
                 y = getHeight (horizontalContour st1) x (x + (symMaxX - minX));
                 deltaX = x - minX;
                 deltaY = y - minY
             in (True,
                 st1\<lparr>modules := shiftModules (asfGetModules ops a) deltaX deltaY ms,
                     horizontalContour :=
                       addSegment (horizontalContour st1) x (x + (symMaxX - minX))
                         (y + (symMaxY - minY)),
                     verticalContour :=
                       addSegment (verticalContour st1) y (y + (symMaxY - minY))
                         (x + (symMaxX - minX))\<rparr>)))"

definition packNode :: "'asf ASFOps \<Rightarrow> 'asf HBStarTree \<Rightarrow> nat \<Rightarrow> bool \<times> 'asf HBStarTree" where
  "packNode ops st node =
     (case nodeType (heap st node) of
        MODULE \<Rightarrow> packModuleNode ops st node
      | HIERARCHY \<Rightarrow> packHierarchyNode ops st node
      | CONTOUR \<Rightarrow> (True, st))"

partial_function (option) packSubtree ::
  "'asf ASFOps \<Rightarrow> 'asf HBStarTree \<Rightarrow> nat \<Rightarrow> 'asf HBStarTree option" where
  "packSubtree ops st node =
     (case packNode ops st node of
        (continue, st1) \<Rightarrow>
          if \<not> continue then Some st1
          else
            do { st2 \<leftarrow> (case getLeftChild st1 node of
                           None \<Rightarrow> Some st1
                         | Some l \<Rightarrow> packSubtree ops st1 l);
                 (case getRightChild st2 node of
                    None \<Rightarrow> Some st2
                  | Some r \<Rightarrow> packSubtree ops st2 r) })"

declare packSubtree.simps [code]

fun packAll :: "'asf ASFOps \<Rightarrow> 'asf HBStarTree \<Rightarrow> nat list \<Rightarrow> 'asf HBStarTree option" where
  "packAll ops st [] = Some st"
| "packAll ops st (node # rest) =
     do { st1 \<leftarrow> packSubtree ops st node; packAll ops st1 rest }"

definition repackAffectedSubtrees :: "'asf ASFOps \<Rightarrow> 'asf HBStarTree \<Rightarrow> 'asf HBStarTree option" where
  "repackAffectedSubtrees ops st =
     (if modifiedSubtrees st = [] then Some st
      else do { roots \<leftarrow> rootsToRepack st (modifiedSubtrees st);
                sorted_roots \<leftarrow> sortByDepth st roots;
                st1 \<leftarrow> packAll ops st sorted_roots;
                Some (st1\<lparr>modifiedSubtrees := []\<rparr>) })"


text \<open>
  \<open>updateContourNodes\<close> and its helpers. \<open>findNearestContourNode\<close> searches breadth
  first from the root, whatever node it is given. \<open>existingContourLoop\<close> collects the
  old contour nodes below a Hierarchy node's right child, \<open>newContourNodes\<close> allocates
  one contour node per skyline segment, \<open>connectContourNodes\<close> links them into a left
  chain, \<open>reassignDangling\<close> re-attaches a right child of an old contour node.
\<close>

definition optList :: "'a option \<Rightarrow> 'a list" where
  "optList x = (case x of None \<Rightarrow> [] | Some y \<Rightarrow> [y])"

partial_function (option) findNearestContourLoop ::
  "'asf HBStarTree \<Rightarrow> nat list \<Rightarrow> nat option option" where
  "findNearestContourLoop st queue =
     (case queue of
        [] \<Rightarrow> Some None
      | current # rest \<Rightarrow>
          if nodeType (heap st current) = CONTOUR then Some (Some current)
          else findNearestContourLoop st
                 (rest @ optList (getLeftChild st current) @ optList (getRightChild st current)))"

declare findNearestContourLoop.simps [code]

definition findNearestContourNode :: "'asf HBStarTree \<Rightarrow> nat option \<Rightarrow> nat option option" where
  "findNearestContourNode st node =
     (case (node, root st) of
        (Some n, Some r) \<Rightarrow> findNearestContourLoop st [r]
      | _ \<Rightarrow> Some None)"

partial_function (option) findLeftmostSkewedChild :: "'asf HBStarTree \<Rightarrow> nat \<Rightarrow> nat option" where
  "findLeftmostSkewedChild st current =
     (case getLeftChild st current of
        None \<Rightarrow> Some current
      | Some l \<Rightarrow> findLeftmostSkewedChild st l)"

declare findLeftmostSkewedChild.simps [code]

partial_function (option) findRightmostSkewedChild :: "'asf HBStarTree \<Rightarrow> nat \<Rightarrow> nat option" where
  "findRightmostSkewedChild st current =
     (case getRightChild st current of
        None \<Rightarrow> Some current
      | Some r \<Rightarrow> findRightmostSkewedChild st r)"

declare findRightmostSkewedChild.simps [code]

partial_function (option) existingContourLoop ::
  "'asf HBStarTree \<Rightarrow> nat list \<Rightarrow> nat list \<Rightarrow> nat list option" where
  "existingContourLoop st queue existingContourNodes =
     (case queue of
        [] \<Rightarrow> Some existingContourNodes
      | current # rest \<Rightarrow>
          if nodeType (heap st current) = CONTOUR then
            existingContourLoop st
              (rest @ optList (getLeftChild st current) @ optList (getRightChild st current))
              (existingContourNodes @ [current])
          else existingContourLoop st rest existingContourNodes)"

declare existingContourLoop.simps [code]

function to_string :: "nat \<Rightarrow> string" where
  "to_string n =
     (if n < 10 then [char_of (48 + n)]
      else to_string (n div 10) @ [char_of (48 + n mod 10)])"
  by pat_completeness auto
termination
  by (relation "measure id") auto

fun newContourNodes ::
  "'asf HBStarTree \<Rightarrow> string \<Rightarrow> ContourSegment list \<Rightarrow> nat \<Rightarrow> nat list \<times> 'asf HBStarTree" where
  "newContourNodes st groupName [] i = ([], st)"
| "newContourNodes st groupName (seg # rest) i =
     (case allocNode st
             (setContour (newNode CONTOUR (groupName @ ''_contour_'' @ to_string i))
                (seg_start seg) (seg_height seg) (seg_end seg) (seg_height seg)) of
        (contourNode, st1) \<Rightarrow>
          (case newContourNodes st1 groupName rest (Suc i) of
             (others, st2) \<Rightarrow> (contourNode # others, st2)))"

fun connectContourNodes :: "'asf HBStarTree \<Rightarrow> nat list \<Rightarrow> 'asf HBStarTree" where
  "connectContourNodes st (a # b # rest) =
     connectContourNodes (setParent (setLeftChild st a (Some b)) b (Some a)) (b # rest)"
| "connectContourNodes st _ = st"

definition reassignDangling :: "'asf HBStarTree \<Rightarrow> nat \<Rightarrow> 'asf HBStarTree option" where
  "reassignDangling st danglingNode =
     do { nearest \<leftarrow> findNearestContourNode st (Some danglingNode);
          (case nearest of
             None \<Rightarrow> Some st
           | Some nearestContourNode \<Rightarrow>
               (case getRightChild st nearestContourNode of
                  None \<Rightarrow>
                    Some (setParent (setRightChild st nearestContourNode (Some danglingNode))
                            danglingNode (Some nearestContourNode))
                | Some r \<Rightarrow>
                    do { leftmostSkewedChild \<leftarrow> findLeftmostSkewedChild st r;
                         Some (setParent (setLeftChild st leftmostSkewedChild (Some danglingNode))
                                 danglingNode (Some leftmostSkewedChild)) })) }"

fun reassignAll :: "'asf HBStarTree \<Rightarrow> nat list \<Rightarrow> 'asf HBStarTree option" where
  "reassignAll st [] = Some st"
| "reassignAll st (d # ds) = do { st1 \<leftarrow> reassignDangling st d; reassignAll st1 ds }"

definition updateContourNodesOf ::
  "'asf ASFOps \<Rightarrow> 'asf HBStarTree \<Rightarrow> string \<times> nat \<Rightarrow> 'asf HBStarTree option" where
  "updateContourNodesOf ops st pair =
     (case pair of (groupName, hierarchyNode) \<Rightarrow>
        (case getASFTree (heap st hierarchyNode) of
           None \<Rightarrow> Some st
         | Some a \<Rightarrow>
             do { existingContourNodes \<leftarrow>
                    existingContourLoop st (optList (getRightChild st hierarchyNode)) [];
                  (case newContourNodes st groupName (asfGetSegments ops a) 0 of
                     (new, st1) \<Rightarrow>
                       let st2 = (case new of
                                    [] \<Rightarrow> st1
                                  | first # _ \<Rightarrow>
                                      connectContourNodes
                                        (setParent (setRightChild st1 hierarchyNode (Some first))
                                           first (Some hierarchyNode))
                                        new);
                           danglingNodes = List.map_filter (getRightChild st2) existingContourNodes
                       in reassignAll st2 danglingNodes) }))"

fun updateContourNodesLoop ::
  "'asf ASFOps \<Rightarrow> 'asf HBStarTree \<Rightarrow> (string \<times> nat) list \<Rightarrow> 'asf HBStarTree option" where
  "updateContourNodesLoop ops st [] = Some st"
| "updateContourNodesLoop ops st (pair # rest) =
     do { st1 \<leftarrow> updateContourNodesOf ops st pair; updateContourNodesLoop ops st1 rest }"

definition updateContourNodes :: "'asf ASFOps \<Rightarrow> 'asf HBStarTree \<Rightarrow> 'asf HBStarTree option" where
  "updateContourNodes ops st = updateContourNodesLoop ops st (symmetryGroupNodes st)"

text \<open>
  \<open>pack\<close>. \<open>boundingArea\<close> is the \<open>maxX * maxY\<close> computed over all modules; like the
  sums, the product is taken in \<open>int\<close> without wrap-around.
\<close>

definition boundingArea :: "ModuleMap \<Rightarrow> int" where
  "boundingArea ms =
     (let maxX = fold (\<lambda>(k, m) acc. max acc (mod_x m + mod_width m)) ms 0;
          maxY = fold (\<lambda>(k, m) acc. max acc (mod_y m + mod_height m)) ms 0
      in maxX * maxY)"

definition pack :: "'asf ASFOps \<Rightarrow> 'asf HBStarTree \<Rightarrow> (bool \<times> 'asf HBStarTree) option" where
  "pack ops st =
     (case root st of
        None \<Rightarrow> Some (False, st)
      | Some r \<Rightarrow>
          if modifiedSubtrees st \<noteq> [] then
            do { st1 \<leftarrow> repackAffectedSubtrees ops st; Some (True, st1) }
          else
            do { st1 \<leftarrow> packSubtree ops
                          (st\<lparr>horizontalContour :=
                                addSegment (clear (horizontalContour st)) 0 INT_MAX 0,
                              verticalContour :=
                                addSegment (clear (verticalContour st)) 0 INT_MAX 0\<rparr>) r;
                 st2 \<leftarrow> updateContourNodes ops (st1\<lparr>totalArea := boundingArea (modules st1)\<rparr>);
                 Some (True, st2\<lparr>isPacked := True\<rparr>) })"


text \<open>
  The perturbations \<open>rotateModule\<close>, \<open>moveNode\<close> and \<open>swapNodes\<close>. Each returns its
  \<open>bool\<close> together with the new state. \<open>swapParentChild\<close> is the branch of
  \<open>swapNodes\<close> for a node and its direct child (the source has it twice, with the
  roles exchanged), \<open>swapUnrelated\<close> the general branch.
\<close>

definition findNode :: "'asf HBStarTree \<Rightarrow> string \<Rightarrow> nat option" where
  "findNode st nodeName = nodeMap st nodeName"

definition getModuleNode :: "'asf HBStarTree \<Rightarrow> string \<Rightarrow> nat option" where
  "getModuleNode st moduleName = map_of (moduleNodes st) moduleName"

definition inGroup :: "string \<Rightarrow> SymmetryGroup \<Rightarrow> bool" where
  "inGroup moduleName g =
     ((\<exists>pair \<in> set (symmetryPairs g). fst pair = moduleName \<or> snd pair = moduleName)
      \<or> moduleName \<in> set (selfSymmetric g))"

definition repackIf :: "'asf ASFOps \<Rightarrow> bool \<Rightarrow> 'asf HBStarTree \<Rightarrow> 'asf HBStarTree option" where
  "repackIf ops b st = (if b then repackAffectedSubtrees ops st else Some st)"

definition rotateModule ::
  "'asf ASFOps \<Rightarrow> 'asf HBStarTree \<Rightarrow> string \<Rightarrow> (bool \<times> 'asf HBStarTree) option" where
  "rotateModule ops st moduleName =
     (case map_of (modules st) moduleName of
        None \<Rightarrow> Some (False, st)
      | Some m \<Rightarrow>
          (case find (inGroup moduleName) (symmetryGroups st) of
             Some grp \<Rightarrow>
               (case map_of (symmetryGroupNodes st) (grp_name grp) of
                  None \<Rightarrow> Some (False, st)
                | Some hierarchyNode \<Rightarrow>
                    (case getASFTree (heap st hierarchyNode) of
                       None \<Rightarrow> Some (False, st)
                     | Some a \<Rightarrow>
                         (case asfRotateModule ops a moduleName (modules st) of
                            (success, a', ms) \<Rightarrow>
                              do { st1 \<leftarrow> markSubtreeForRepack
                                     (st\<lparr>modules := ms,
                                         heap := (heap st)(hierarchyNode :=
                                                   (heap st hierarchyNode)\<lparr>asfTree := Some a'\<rparr>)\<rparr>)
                                     (Some hierarchyNode);
                                   st2 \<leftarrow> repackIf ops (isPacked st1 \<and> success) st1;
                                   Some (success, st2) })))
           | None \<Rightarrow>
               do { st1 \<leftarrow> markSubtreeForRepack
                             (st\<lparr>modules := smap_set (modules st) moduleName (rotateM m)\<rparr>)
                             (getModuleNode st moduleName);
                    st2 \<leftarrow> repackIf ops (isPacked st1) st1;
                    Some (True, st2) }))"

definition relocateExisting ::
  "'asf HBStarTree \<Rightarrow> nat \<Rightarrow> nat \<Rightarrow> bool \<Rightarrow> 'asf HBStarTree option" where
  "relocateExisting st node existingChild asLeftChild =
     (case getLeftChild st node of
        None \<Rightarrow> Some (setParent (setLeftChild st node (Some existingChild))
                         existingChild (Some node))
      | Some l \<Rightarrow>
          (case getRightChild st node of
             None \<Rightarrow> Some (setParent (setRightChild st node (Some existingChild))
                              existingChild (Some node))
           | Some r \<Rightarrow>
               if asLeftChild then
                 do { current \<leftarrow> findLeftmostSkewedChild st l;
                      Some (setParent (setLeftChild st current (Some existingChild))
                              existingChild (Some current)) }
               else
                 do { current \<leftarrow> findRightmostSkewedChild st r;
                      Some (setParent (setRightChild st current (Some existingChild))
                              existingChild (Some current)) }))"

definition moveNode ::
  "'asf ASFOps \<Rightarrow> 'asf HBStarTree \<Rightarrow> string \<Rightarrow> string \<Rightarrow> bool \<Rightarrow> (bool \<times> 'asf HBStarTree) option" where
  "moveNode ops st nodeName newParentName asLeftChild =
     (case (findNode st nodeName, findNode st newParentName) of
        (Some node, Some newParent) \<Rightarrow>
          do { st1 \<leftarrow>
                 (case getParent st node of
                    Some oldParent \<Rightarrow>
                      markSubtreeForRepack
                        (if getLeftChild st oldParent = Some node
                         then setLeftChild st oldParent None
                         else if getRightChild st oldParent = Some node
                         then setRightChild st oldParent None
                         else st)
                        (Some oldParent)
                  | None \<Rightarrow>
                      Some (if root st = Some node
                            then (case getLeftChild st node of
                                    Some l \<Rightarrow> st\<lparr>root := Some l\<rparr>
                                  | None \<Rightarrow> st\<lparr>root := getRightChild st node\<rparr>)
                            else st));
               st2 \<leftarrow> Some (setParent st1 node (Some newParent));
               st3 \<leftarrow>
                 (case (if asLeftChild then getLeftChild st2 newParent
                        else getRightChild st2 newParent) of
                    None \<Rightarrow> Some st2
                  | Some existingChild \<Rightarrow>
                      do { s \<leftarrow> relocateExisting st2 node existingChild asLeftChild;
                           markSubtreeForRepack s (Some existingChild) });
               st4 \<leftarrow> Some (if asLeftChild then setLeftChild st3 newParent (Some node)
                              else setRightChild st3 newParent (Some node));
               st5 \<leftarrow> markSubtreeForRepack st4 (Some newParent);
               st6 \<leftarrow> markSubtreeForRepack st5 (Some node);
               st7 \<leftarrow> repackIf ops (isPacked st6) st6;
               Some (True, st7) }
      | _ \<Rightarrow> Some (False, st))"

definition detachFromParent :: "'asf HBStarTree \<Rightarrow> nat option \<Rightarrow> bool \<Rightarrow> 'asf HBStarTree" where
  "detachFromParent st par isLeft =
     (case par of
        None \<Rightarrow> st
      | Some p \<Rightarrow> if isLeft then setLeftChild st p None else setRightChild st p None)"

definition attachToParent ::
  "'asf HBStarTree \<Rightarrow> nat option \<Rightarrow> bool \<Rightarrow> nat \<Rightarrow> 'asf HBStarTree" where
  "attachToParent st par isLeft node =
     (case par of
        Some p \<Rightarrow>
          setParent (if isLeft then setLeftChild st p (Some node)
                     else setRightChild st p (Some node)) node (Some p)
      | None \<Rightarrow> setParent (st\<lparr>root := Some node\<rparr>) node None)"

definition swapParentChild ::
  "'asf HBStarTree \<Rightarrow> nat \<Rightarrow> nat \<Rightarrow> nat option \<Rightarrow> bool \<Rightarrow> 'asf HBStarTree" where
  "swapParentChild st node1 node2 parent1 isLeftChild1 =
     (let s1 = (if getLeftChild st node1 = Some node2 then setLeftChild st node1 None
                else setRightChild st node1 None);
          s2 = detachFromParent s1 parent1 isLeftChild1;
          s3 = (if getLeftChild s2 node1 = Some node2 then setLeftChild s2 node2 (Some node1)
                else setRightChild s2 node2 (Some node1));
          s4 = setParent s3 node1 (Some node2)
      in attachToParent s4 parent1 isLeftChild1 node2)"

definition setChildParent :: "'asf HBStarTree \<Rightarrow> nat option \<Rightarrow> nat \<Rightarrow> 'asf HBStarTree" where
  "setChildParent st child p = (case child of None \<Rightarrow> st | Some c \<Rightarrow> setParent st c (Some p))"

definition swapUnrelated ::
  "'asf HBStarTree \<Rightarrow> nat \<Rightarrow> nat \<Rightarrow> nat option \<Rightarrow> nat option \<Rightarrow> bool \<Rightarrow> bool \<Rightarrow> 'asf HBStarTree" where
  "swapUnrelated st node1 node2 parent1 parent2 isLeftChild1 isLeftChild2 =
     (let s1 = detachFromParent st parent1 isLeftChild1;
          s2 = detachFromParent s1 parent2 isLeftChild2;
          leftChild1 = getLeftChild s2 node1;
          rightChild1 = getRightChild s2 node1;
          leftChild2 = getLeftChild s2 node2;
          rightChild2 = getRightChild s2 node2;
          s3 = setRightChild (setLeftChild s2 node1 leftChild2) node1 rightChild2;
          s4 = setChildParent (setChildParent s3 leftChild2 node1) rightChild2 node1;
          s5 = setRightChild (setLeftChild s4 node2 leftChild1) node2 rightChild1;
          s6 = setChildParent (setChildParent s5 leftChild1 node2) rightChild1 node2;
          s7 = attachToParent s6 parent1 isLeftChild1 node2
      in attachToParent s7 parent2 isLeftChild2 node1)"

definition swapNodes ::
  "'asf ASFOps \<Rightarrow> 'asf HBStarTree \<Rightarrow> string \<Rightarrow> string \<Rightarrow> (bool \<times> 'asf HBStarTree) option" where
  "swapNodes ops st nodeName1 nodeName2 =
     (case (findNode st nodeName1, findNode st nodeName2) of
        (Some node1, Some node2) \<Rightarrow>
          do { st1 \<leftarrow> markSubtreeForRepack st (Some node1);
               st2 \<leftarrow> markSubtreeForRepack st1 (Some node2);
               st3 \<leftarrow> Some
                 (let parent1 = getParent st2 node1;
                      parent2 = getParent st2 node2;
                      isLeftChild1 = isLeftChild st2 node1;
                      isLeftChild2 = isLeftChild st2 node2
                  in if getLeftChild st2 node1 = Some node2 \<or> getRightChild st2 node1 = Some node2
                     then swapParentChild st2 node1 node2 parent1 isLeftChild1
                     else if getLeftChild st2 node2 = Some node1
                           \<or> getRightChild st2 node2 = Some node1
                     then swapParentChild st2 node2 node1 parent2 isLeftChild2
                     else swapUnrelated st2 node1 node2 parent1 parent2 isLeftChild1 isLeftChild2);
               st4 \<leftarrow> repackIf ops (isPacked st3) st3;
               Some (True, st4) }
      | _ \<Rightarrow> Some (False, st))"


text \<open>
  Initial construction and \<open>clone\<close>. \<open>std::sort\<close> by descending area is modelled by the
  stable \<open>sort_key\<close>. \<open>linkChain\<close> is the loop that hangs each next node as the left
  child of the current one.
\<close>

definition clearTree :: "'asf HBStarTree \<Rightarrow> 'asf HBStarTree" where
  "clearTree st = st\<lparr>root := None, moduleNodes := [], symmetryGroupNodes := [], isPacked := False\<rparr>"

definition addIfModule :: "'asf ASFOps \<Rightarrow> ModuleMap \<Rightarrow> string \<Rightarrow> 'asf \<Rightarrow> 'asf" where
  "addIfModule ops ms k a = (if map_of ms k \<noteq> None then asfAddModule ops a k else a)"

definition buildIsland :: "'asf ASFOps \<Rightarrow> ModuleMap \<Rightarrow> SymmetryGroup \<Rightarrow> 'asf" where
  "buildIsland ops ms grp =
     (let a0 = asfNew ops grp;
          a1 = fold (\<lambda>pair a. addIfModule ops ms (snd pair) (addIfModule ops ms (fst pair) a))
                 (symmetryPairs grp) a0;
          a2 = fold (addIfModule ops ms) (selfSymmetric grp) a1
      in asfConstructInitialTree ops a2)"

fun constructSymmetryIslandsLoop ::
  "'asf ASFOps \<Rightarrow> 'asf HBStarTree \<Rightarrow> SymmetryGroup list \<Rightarrow> 'asf HBStarTree" where
  "constructSymmetryIslandsLoop ops st [] = st"
| "constructSymmetryIslandsLoop ops st (grp # rest) =
     (case allocNode st
             (setASFTree (newNode HIERARCHY (grp_name grp))
                (Some (buildIsland ops (modules st) grp))) of
        (hierarchyNode, st1) \<Rightarrow>
          constructSymmetryIslandsLoop ops
            (st1\<lparr>symmetryGroupNodes :=
                   smap_set (symmetryGroupNodes st1) (grp_name grp) hierarchyNode\<rparr>)
            rest)"

definition constructSymmetryIslands :: "'asf ASFOps \<Rightarrow> 'asf HBStarTree \<Rightarrow> 'asf HBStarTree" where
  "constructSymmetryIslands ops st = constructSymmetryIslandsLoop ops st (symmetryGroups st)"

definition symmetryModuleNames :: "SymmetryGroup list \<Rightarrow> string list" where
  "symmetryModuleNames groups =
     concat (map (\<lambda>g. concat (map (\<lambda>pair. [fst pair, snd pair]) (symmetryPairs g))
                       @ selfSymmetric g) groups)"

definition areaOf :: "ModuleMap \<Rightarrow> string \<Rightarrow> int" where
  "areaOf ms k = (case map_of ms k of None \<Rightarrow> 0 | Some m \<Rightarrow> getArea m)"

fun createModuleNodes :: "'asf HBStarTree \<Rightarrow> string list \<Rightarrow> 'asf HBStarTree" where
  "createModuleNodes st [] = st"
| "createModuleNodes st (moduleName # rest) =
     (case allocNode st (newNode MODULE moduleName) of
        (node, st1) \<Rightarrow>
          createModuleNodes
            (st1\<lparr>moduleNodes := smap_set (moduleNodes st1) moduleName node\<rparr>) rest)"

fun linkChain :: "'asf HBStarTree \<Rightarrow> nat \<Rightarrow> nat list \<Rightarrow> 'asf HBStarTree \<times> nat" where
  "linkChain st current [] = (st, current)"
| "linkChain st current (n # ns) =
     linkChain (setParent (setLeftChild st current (Some n)) n (Some current)) n ns"

definition constructInitialTreeStructure :: "'asf HBStarTree \<Rightarrow> 'asf HBStarTree" where
  "constructInitialTreeStructure st =
     (let symmetryModules = symmetryModuleNames (symmetryGroups st);
          nonSymmetryModules = filter (\<lambda>k. k \<notin> set symmetryModules) (map fst (modules st));
          sortedModules = sort_key (\<lambda>k. - areaOf (modules st) k) nonSymmetryModules;
          st1 = createModuleNodes st sortedModules
      in case map snd (symmetryGroupNodes st1) of
           first # others \<Rightarrow>
             (case linkChain (st1\<lparr>root := Some first\<rparr>) first others of
                (st2, current) \<Rightarrow> fst (linkChain st2 current (map snd (moduleNodes st2))))
         | [] \<Rightarrow>
             (case map snd (moduleNodes st1) of
                first # others \<Rightarrow> fst (linkChain (st1\<lparr>root := Some first\<rparr>) first others)
              | [] \<Rightarrow> st1))"

partial_function (option) registerNodeInMap ::
  "'asf HBStarTree \<Rightarrow> nat \<Rightarrow> 'asf HBStarTree option" where
  "registerNodeInMap st node =
     do { st1 \<leftarrow> Some (st\<lparr>nodeMap := (nodeMap st)(name (heap st node) \<mapsto> node)\<rparr>);
          st2 \<leftarrow> (case getLeftChild st1 node of
                      None \<Rightarrow> Some st1
                    | Some l \<Rightarrow> registerNodeInMap st1 l);
          (case getRightChild st2 node of
             None \<Rightarrow> Some st2
           | Some r \<Rightarrow> registerNodeInMap st2 r) }"

declare registerNodeInMap.simps [code]

definition constructInitialTree :: "'asf ASFOps \<Rightarrow> 'asf HBStarTree \<Rightarrow> 'asf HBStarTree option" where
  "constructInitialTree ops st =
     (let st1 = constructInitialTreeStructure (constructSymmetryIslands ops (clearTree st))
      in case root st1 of
           None \<Rightarrow> Some st1
         | Some r \<Rightarrow> registerNodeInMap st1 r)"

definition addModule :: "'asf HBStarTree \<Rightarrow> string \<Rightarrow> Module \<Rightarrow> 'asf HBStarTree" where
  "addModule st k m = st\<lparr>modules := smap_set (modules st) k m\<rparr>"

definition addSymmetryGroup :: "'asf HBStarTree \<Rightarrow> SymmetryGroup \<Rightarrow> 'asf HBStarTree" where
  "addSymmetryGroup st grp = st\<lparr>symmetryGroups := symmetryGroups st @ [grp]\<rparr>"

definition clone :: "'asf ASFOps \<Rightarrow> 'asf HBStarTree \<Rightarrow> 'asf HBStarTree option" where
  "clone ops st =
     do { c \<leftarrow> constructInitialTree ops
                 (emptyTree\<lparr>modules := modules st, symmetryGroups := symmetryGroups st\<rparr>);
          Some (c\<lparr>isPacked := isPacked st, totalArea := totalArea st,
                  horizontalContour := horizontalContour st,
                  verticalContour := verticalContour st\<rparr>) }"

text \<open>
  Concrete inputs for the evaluations below. \<open>stubASF\<close> stands in for the external
  ASF-B*-tree where a closed example needs one: it has no modules, an empty skyline, and
  refuses every rotation.
\<close>

definition stubASF :: "unit ASFOps" where
  "stubASF = \<lparr>asfNew = (\<lambda>_. ()), asfAddModule = (\<lambda>a _. a), asfConstructInitialTree = (\<lambda>a. a),
     asfPack = (\<lambda>a ms. (a, ms)), asfGetModules = (\<lambda>_. []), asfGetSegments = (\<lambda>_. []),
     asfGetSymmetryAxisPosition = (\<lambda>_. 0), asfRotateModule = (\<lambda>a _ ms. (False, a, ms))\<rparr>"

definition mkModule :: "int \<Rightarrow> int \<Rightarrow> Module" where
  "mkModule w h = \<lparr>mod_x = 0, mod_y = 0, mod_width = w, mod_height = h, mod_rotated = False\<rparr>"

definition oneModule :: "unit HBStarTree" where
  "oneModule = addModule emptyTree ''a'' (mkModule 10 10)"

definition twoModules :: "unit HBStarTree" where
  "twoModules = addModule (addModule emptyTree ''a'' (mkModule 10 10)) ''b'' (mkModule 20 10)"

text \<open>
  \<open>position\<close> reads the coordinates of a module.
\<close>

definition position :: "'asf HBStarTree \<Rightarrow> string \<Rightarrow> (int \<times> int) option" where
  "position st k = map_option (\<lambda>m. (mod_x m, mod_y m)) (map_of (modules st) k)"

text \<open>
  Bounded shape predicates, used to say that the walks end. \<open>pathToRoot k st n\<close> is the
  list of \<open>n\<close> and its ancestors when the parent chain of \<open>n\<close> ends within \<open>k\<close> steps.
\<close>

fun pathToRoot :: "nat \<Rightarrow> 'asf HBStarTree \<Rightarrow> nat \<Rightarrow> nat list option" where
  "pathToRoot 0 st n = None"
| "pathToRoot (Suc k) st n =
     (case getParent st n of
        None \<Rightarrow> Some [n]
      | Some p \<Rightarrow> map_option ((#) n) (pathToRoot k st p))"


definition packedTwo :: "unit HBStarTree" where
  "packedTwo =
     (case Option.bind (constructInitialTree stubASF twoModules) (pack stubASF) of
        Some (ok, st) \<Rightarrow> st
      | None \<Rightarrow> emptyTree)"

definition columnPack :: "string list \<Rightarrow> ModuleMap \<Rightarrow> ModuleMap" where
  "columnPack names ms =
     snd (fold (\<lambda>k (y, acc). case map_of acc k of
                                 None \<Rightarrow> (y, acc)
                               | Some m \<Rightarrow> (y + mod_height m, smap_set acc k (setPosition m 0 y)))
            names (0, ms))"

definition columnASF :: "(string list \<times> ContourSegment list) ASFOps" where
  "columnASF =
     \<lparr>asfNew = (\<lambda>_. ([], [])),
      asfAddModule = (\<lambda>a k. (fst a @ [k], snd a)),
      asfConstructInitialTree = (\<lambda>a. a),
      asfPack = (\<lambda>a ms.
        let ms' = columnPack (fst a) ms;
            island = List.map_filter (map_of ms') (fst a)
        in ((fst a,
             if island = [] then []
             else [mkSegment 0 (fold (\<lambda>m acc. max acc (mod_width m)) island 0)
                     (fold (\<lambda>m acc. acc + mod_height m) island 0)]),
            ms')),
      asfGetModules = fst,
      asfGetSegments = snd,
      asfGetSymmetryAxisPosition =
        (\<lambda>a. case snd a of [] \<Rightarrow> 0 | seg # _ \<Rightarrow> of_int (seg_end seg) / 2),
      asfRotateModule = (\<lambda>a _ ms. (False, a, ms))\<rparr>"

definition columnInput :: "(string list \<times> ContourSegment list) HBStarTree" where
  "columnInput =
     addSymmetryGroup
       (addSymmetryGroup
          (addModule (addModule (addModule emptyTree ''a'' (mkModule 25 10)) ''b'' (mkModule 20 10))
             ''m'' (mkModule 10 10))
          \<lparr>grp_name = ''G'', symmetryPairs = [], selfSymmetric = [''a'']\<rparr>)
       \<lparr>grp_name = ''H'', symmetryPairs = [], selfSymmetric = [''b'']\<rparr>"

definition columnTree :: "(string list \<times> ContourSegment list) HBStarTree" where
  "columnTree =
     (case constructInitialTree columnASF columnInput of
        Some st \<Rightarrow>
          st\<lparr>horizontalContour := addSegment (clear (horizontalContour st)) 0 INT_MAX 0,
             verticalContour := addSegment (clear (verticalContour st)) 0 INT_MAX 0\<rparr>
      | None \<Rightarrow> emptyTree)"

definition islandInput :: "(string list \<times> ContourSegment list) HBStarTree" where
  "islandInput =
     addSymmetryGroup
       (addModule (addModule (addModule (addModule emptyTree ''a'' (mkModule 10 10))
          ''m'' (mkModule 10 10)) ''x'' (mkModule 10 10)) ''y'' (mkModule 10 10))
       \<lparr>grp_name = ''G'', symmetryPairs = [], selfSymmetric = [''a'']\<rparr>"

definition builtTwo :: "unit HBStarTree" where
  "builtTwo =
     (case constructInitialTree stubASF twoModules of
        Some st \<Rightarrow> st
      | None \<Rightarrow> emptyTree)"

definition markedTwo :: "unit HBStarTree" where
  "markedTwo =
     (case Option.bind (constructInitialTree stubASF twoModules)
             (\<lambda>st. rotateModule stubASF st ''b'') of
        Some (ok, st) \<Rightarrow> st
      | None \<Rightarrow> emptyTree)"

text \<open>
  \<open>subtreeWithin k st n\<close>: the subtree below \<open>n\<close> is finite, of height below \<open>k\<close>.
  \<open>sameTree A B\<close>: \<open>B\<close> differs from \<open>A\<close> at most in the modules, the contours and the
  ASF trees inside Hierarchy nodes, and the cached maxima of the contours have not
  dropped.
\<close>

fun subtreeWithin :: "nat \<Rightarrow> 'asf HBStarTree \<Rightarrow> nat \<Rightarrow> bool" where
  "subtreeWithin 0 st n = False"
| "subtreeWithin (Suc k) st n =
     ((case getLeftChild st n of None \<Rightarrow> True | Some l \<Rightarrow> subtreeWithin k st l)
      \<and> (case getRightChild st n of None \<Rightarrow> True | Some r \<Rightarrow> subtreeWithin k st r))"

definition sameLinks :: "'asf HBStarTreeNode \<Rightarrow> 'asf HBStarTreeNode \<Rightarrow> bool" where
  "sameLinks a b =
     (nodeType b = nodeType a \<and> name b = name a \<and> leftChild b = leftChild a
      \<and> rightChild b = rightChild a \<and> parent b = parent a
      \<and> contourX1 b = contourX1 a \<and> contourY1 b = contourY1 a
      \<and> contourX2 b = contourX2 a \<and> contourY2 b = contourY2 a)"

definition sameTree :: "'asf HBStarTree \<Rightarrow> 'asf HBStarTree \<Rightarrow> bool" where
  "sameTree A B =
     (root B = root A \<and> isPacked B = isPacked A \<and> totalArea B = totalArea A
      \<and> nextPtr B = nextPtr A \<and> modifiedSubtrees B = modifiedSubtrees A
      \<and> moduleNodes B = moduleNodes A \<and> symmetryGroupNodes B = symmetryGroupNodes A
      \<and> nodeMap B = nodeMap A \<and> symmetryGroups B = symmetryGroups A
      \<and> (\<forall>n. sameLinks (heap A n) (heap B n))
      \<and> maxCoordinate (horizontalContour A) \<le> maxCoordinate (horizontalContour B)
      \<and> maxHeight (horizontalContour A) \<le> maxHeight (horizontalContour B)
      \<and> maxCoordinate (verticalContour A) \<le> maxCoordinate (verticalContour B)
      \<and> maxHeight (verticalContour A) \<le> maxHeight (verticalContour B))"

text \<open>
  \<open>plainSubtree k st par n\<close>: the subtree below \<open>n\<close> is finite, holds no Hierarchy node,
  and every node in it has the parent link that the child link it hangs on demands
  (\<open>par\<close> for \<open>n\<close> itself). \<open>packRel\<close> relates two states that differ in the positions
  of modules only; \<open>relStep A B A' B'\<close> relates two runs from such states: they stay
  related, a module on which they agreed is still agreed on, and a module on which they
  disagree was not touched by the second run.
\<close>

fun plainSubtree :: "nat \<Rightarrow> 'asf HBStarTree \<Rightarrow> nat option \<Rightarrow> nat \<Rightarrow> bool" where
  "plainSubtree 0 st par n = False"
| "plainSubtree (Suc k) st par n =
     (getParent st n = par \<and> nodeType (heap st n) \<noteq> HIERARCHY
      \<and> (case getLeftChild st n of None \<Rightarrow> True | Some l \<Rightarrow> plainSubtree k st (Some n) l)
      \<and> (case getRightChild st n of None \<Rightarrow> True | Some r \<Rightarrow> plainSubtree k st (Some n) r))"

definition sameDims :: "Module \<Rightarrow> Module \<Rightarrow> bool" where
  "sameDims m m' =
     (mod_width m = mod_width m' \<and> mod_height m = mod_height m' \<and> mod_rotated m = mod_rotated m')"

definition packRel :: "'asf HBStarTree \<Rightarrow> 'asf HBStarTree \<Rightarrow> bool" where
  "packRel A B =
     (heap A = heap B \<and> horizontalContour A = horizontalContour B
      \<and> verticalContour A = verticalContour B
      \<and> (\<forall>k. rel_option sameDims (map_of (modules A) k) (map_of (modules B) k)))"

definition relStep ::
  "'asf HBStarTree \<Rightarrow> 'asf HBStarTree \<Rightarrow> 'asf HBStarTree \<Rightarrow> 'asf HBStarTree \<Rightarrow> bool" where
  "relStep A B A' B' =
     (packRel A' B' \<and> heap A' = heap A
      \<and> (\<forall>k. map_of (modules A) k = map_of (modules B) k
             \<longrightarrow> map_of (modules A') k = map_of (modules B') k)
      \<and> (\<forall>k. map_of (modules A') k = map_of (modules B') k
             \<or> map_of (modules B') k = map_of (modules B) k)
      \<and> (\<forall>k. rel_option sameDims (map_of (modules B) k) (map_of (modules B') k)))"

text \<open>
  \<open>registered st n\<close>: \<open>packSubtree\<close> does not leave by \<open>return\<close> at \<open>n\<close>, it goes on to
  the children (the module of a Module node is in \<open>modules\<close>, a Hierarchy node has an ASF
  tree). \<open>packOrder k st n\<close>: the nodes below \<open>n\<close>, down to depth \<open>k\<close>, in the order
  node, left subtree, right subtree, with the children of registered nodes only.
  \<open>sameShape A B\<close>: \<open>sameTree A B\<close>, and the same nodes are registered.
\<close>

definition registered :: "'asf HBStarTree \<Rightarrow> nat \<Rightarrow> bool" where
  "registered st n =
     (case nodeType (heap st n) of
        MODULE \<Rightarrow> map_of (modules st) (getModuleName (heap st n)) \<noteq> None
      | HIERARCHY \<Rightarrow> getASFTree (heap st n) \<noteq> None
      | CONTOUR \<Rightarrow> True)"

fun packOrder :: "nat \<Rightarrow> 'asf HBStarTree \<Rightarrow> nat \<Rightarrow> nat list" where
  "packOrder 0 st n = []"
| "packOrder (Suc k) st n =
     n # (if registered st n
          then (case getLeftChild st n of None \<Rightarrow> [] | Some l \<Rightarrow> packOrder k st l)
               @ (case getRightChild st n of None \<Rightarrow> [] | Some r \<Rightarrow> packOrder k st r)
          else [])"

definition sameShape :: "'asf HBStarTree \<Rightarrow> 'asf HBStarTree \<Rightarrow> bool" where
  "sameShape A B = (sameTree A B \<and> (\<forall>n. registered B n = registered A n))"

section \<open>Properties of the contour\<close>

text \<open>
  C8. A call \<open>addSegment(start, end, height)\<close> with \<open>start \<ge> end\<close> returns the contour
  as it was: the segment list, \<open>maxCoordinate\<close> and \<open>maxHeight\<close> are unchanged, and so
  is the answer of every later \<open>getHeight\<close> query.
\<close>

theorem addSegment_degenerate_noop:
  assumes "start \<ge> end'"
  shows "addSegment c start end' height = c
       \<and> segments (addSegment c start end' height) = segments c
       \<and> maxCoordinate (addSegment c start end' height) = maxCoordinate c
       \<and> maxHeight (addSegment c start end' height) = maxHeight c
       \<and> getHeight (addSegment c start end' height) a b = getHeight c a b"
  using assms by (simp add: addSegment_def)

theorem addSegment_degenerate_noop_witness:
  "addSegment \<lparr>segments = [mkSegment 0 10 4], maxCoordinate = 10, maxHeight = 4\<rparr> 7 7 9
     = \<lparr>segments = [mkSegment 0 10 4], maxCoordinate = 10, maxHeight = 4\<rparr>
   \<and> getHeight (addSegment \<lparr>segments = [mkSegment 0 10 4], maxCoordinate = 10, maxHeight = 4\<rparr> 7 7 9) 0 5
     = getHeight \<lparr>segments = [mkSegment 0 10 4], maxCoordinate = 10, maxHeight = 4\<rparr> 0 5"
  using addSegment_degenerate_noop
    [of 7 7 "\<lparr>segments = [mkSegment 0 10 4], maxCoordinate = 10, maxHeight = 4\<rparr>" 9 0 5]
  by simp


subsection \<open>Insertion into the skyline\<close>

lemma heightAt_Nil [simp]: "heightAt [] p = None"
  by (simp add: heightAt_def)

lemma heightAt_Cons [simp]:
  "heightAt (s # segs) p = (if covers s p then Some (seg_height s) else heightAt segs p)"
  by (simp add: heightAt_def)

lemma sortedDisjoint_Cons:
  "sortedDisjoint (s # segs) =
     (seg_start s < seg_end s \<and> (\<forall>t \<in> set segs. seg_end s \<le> seg_start t) \<and> sortedDisjoint segs)"
proof (induction segs arbitrary: s)
  case Nil
  then show ?case by simp
next
  case (Cons t segs)
  show ?case
    using Cons.IH [of t] by fastforce
qed

lemma heightAt_none_before:
  "\<forall>t \<in> set segs. p < seg_start t \<Longrightarrow> heightAt segs p = None"
  by (induction segs) (auto simp: covers_def)

lemma addLoop_True:
  assumes "sortedDisjoint segs" "start < end'" "\<forall>t \<in> set segs. start \<le> seg_start t \<and> lb \<le> seg_start t"
  shows "sortedDisjoint (addLoop start end' height True segs)
       \<and> (\<forall>t \<in> set (addLoop start end' height True segs). end' \<le> seg_start t \<and> lb \<le> seg_start t)
       \<and> (\<forall>p. end' \<le> p \<longrightarrow> heightAt (addLoop start end' height True segs) p = heightAt segs p)"
  using assms
proof (induction segs arbitrary: lb)
  case Nil
  then show ?case by simp
next
  case (Cons s segs)
  have s: "seg_start s < seg_end s" "\<forall>t \<in> set segs. seg_end s \<le> seg_start t" "sortedDisjoint segs"
    using Cons.prems(1) by (simp_all add: sortedDisjoint_Cons)
  have "\<forall>t\<in>set segs. start \<le> seg_start t \<and> max lb (seg_end s) \<le> seg_start t"
    using Cons.prems(3) s(2) by auto
  from Cons.IH [OF s(3) Cons.prems(2) this]
  have ih: "sortedDisjoint (addLoop start end' height True segs)"
    "\<forall>t\<in>set (addLoop start end' height True segs). end' \<le> seg_start t \<and> lb \<le> seg_start t \<and> seg_end s \<le> seg_start t"
    "\<forall>p\<ge>end'. heightAt (addLoop start end' height True segs) p = heightAt segs p"
    by auto
  have s0: "start \<le> seg_start s" "lb \<le> seg_start s" using Cons.prems(3) by auto
  show ?case
    using s s0 ih Cons.prems(2)
    by (auto simp: sortedDisjoint_Cons mkSegment_def covers_def)
qed


lemma addLoop_False:
  assumes "sortedDisjoint segs" "start < end'" "\<forall>t \<in> set segs. lb \<le> seg_start t" "lb \<le> start"
  shows "sortedDisjoint (addLoop start end' height False segs)
       \<and> (\<forall>t \<in> set (addLoop start end' height False segs). lb \<le> seg_start t)
       \<and> (\<forall>p. heightAt (addLoop start end' height False segs) p =
              (if start \<le> p \<and> p < end' then Some height else heightAt segs p))"
  using assms
proof (induction segs arbitrary: lb)
  case Nil
  then show ?case by (simp add: mkSegment_def covers_def)
next
  case (Cons s segs)
  have s: "seg_start s < seg_end s" "\<forall>t \<in> set segs. seg_end s \<le> seg_start t" "sortedDisjoint segs"
    using Cons.prems(1) by (simp_all add: sortedDisjoint_Cons)
  have s0: "lb \<le> seg_start s" using Cons.prems(3) by auto
  show ?case
  proof (cases "seg_end s \<le> start")
    case True
    have "\<forall>t\<in>set segs. seg_end s \<le> seg_start t" using s(2) .
    from Cons.IH [OF s(3) Cons.prems(2) this True]
    show ?thesis
      using True s s0 Cons.prems(2,4)
      by (auto simp: sortedDisjoint_Cons covers_def)
  next
    case False
    have "\<forall>t\<in>set segs. start \<le> seg_start t \<and> seg_end s \<le> seg_start t"
      using s(2) False by auto
    from addLoop_True [OF s(3) Cons.prems(2) this, of height]
    have tr: "sortedDisjoint (addLoop start end' height True segs)"
      "\<forall>t\<in>set (addLoop start end' height True segs). end' \<le> seg_start t \<and> seg_end s \<le> seg_start t"
      "\<forall>p\<ge>end'. heightAt (addLoop start end' height True segs) p = heightAt segs p"
      by auto
    have none1: "\<And>p. p < end' \<Longrightarrow> heightAt (addLoop start end' height True segs) p = None"
      using tr(2) by (intro heightAt_none_before) auto
    have none2: "\<And>p. p < seg_end s \<Longrightarrow> heightAt segs p = None"
      using s(2) by (intro heightAt_none_before) auto
    show ?thesis
      using False s s0 tr none1 none2 Cons.prems(2,4)
      by (auto simp: sortedDisjoint_Cons mkSegment_def covers_def not_le not_less)
  qed
qed


lemma sortedDisjoint_sorted_starts:
  "sortedDisjoint segs \<Longrightarrow> sorted (map seg_start segs)"
proof (induction segs)
  case Nil
  then show ?case by simp
next
  case (Cons s segs)
  then show ?case by (fastforce simp: sortedDisjoint_Cons)
qed

lemma mergeFrom_nonempty: "mergeFrom lst rest \<noteq> []"
  by (induction rest arbitrary: lst) auto

lemma mergeFrom_heightAt:
  assumes "sortedDisjoint (lst # rest)"
  shows "sortedDisjoint (mergeFrom lst rest)
       \<and> fused (mergeFrom lst rest)
       \<and> seg_start (hd (mergeFrom lst rest)) = seg_start lst
       \<and> seg_height (hd (mergeFrom lst rest)) = seg_height lst
       \<and> (\<forall>p. heightAt (mergeFrom lst rest) p = heightAt (lst # rest) p)"
  using assms
proof (induction rest arbitrary: lst)
  case Nil
  then show ?case by simp
next
  case (Cons cur rest)
  have w: "seg_start lst < seg_end lst" "seg_end lst \<le> seg_start cur" "sortedDisjoint (cur # rest)"
    using Cons.prems by simp_all
  have c: "seg_start cur < seg_end cur" "\<forall>t\<in>set rest. seg_end cur \<le> seg_start t" "sortedDisjoint rest"
    using w(3) by (simp_all add: sortedDisjoint_Cons)
  show ?case
  proof (cases "seg_end lst = seg_start cur \<and> seg_height lst = seg_height cur")
    case True
    let ?l = "lst\<lparr>seg_end := seg_end cur\<rparr>"
    have "sortedDisjoint (?l # rest)"
      using w c by (simp add: sortedDisjoint_Cons)
    from Cons.IH [OF this]
    have ih: "sortedDisjoint (mergeFrom ?l rest)" "fused (mergeFrom ?l rest)"
      "seg_start (hd (mergeFrom ?l rest)) = seg_start lst"
      "seg_height (hd (mergeFrom ?l rest)) = seg_height lst"
      "\<forall>p. heightAt (mergeFrom ?l rest) p = heightAt (?l # rest) p"
      by simp_all
    have "\<And>p. heightAt (?l # rest) p = heightAt (lst # cur # rest) p"
      using True w c by (auto simp: covers_def)
    then show ?thesis using True ih by simp
  next
    case False
    from Cons.IH [OF w(3)]
    have ih: "sortedDisjoint (mergeFrom cur rest)" "fused (mergeFrom cur rest)"
      "seg_start (hd (mergeFrom cur rest)) = seg_start cur"
      "seg_height (hd (mergeFrom cur rest)) = seg_height cur"
      "\<forall>p. heightAt (mergeFrom cur rest) p = heightAt (cur # rest) p"
      by simp_all
    obtain m ms where m: "mergeFrom cur rest = m # ms"
      using mergeFrom_nonempty [of cur rest] by (cases "mergeFrom cur rest") auto
    have unf: "mergeFrom lst (cur # rest) = lst # m # ms"
      using False m by auto
    have "\<And>p. heightAt (m # ms) p = heightAt (cur # rest) p"
      using ih(5) m by simp
    then have hp: "\<And>p. heightAt (lst # m # ms) p = heightAt (lst # cur # rest) p"
      by simp
    have "sortedDisjoint (lst # m # ms)" "fused (lst # m # ms)"
      using False w ih(1-4) unfolding m by auto
    then show ?thesis
      unfolding unf using hp by simp
  qed
qed

lemma sortedDisjoint_append:
  "sortedDisjoint (xs @ ys) =
     (sortedDisjoint xs \<and> sortedDisjoint ys
      \<and> (\<forall>a \<in> set xs. \<forall>b \<in> set ys. seg_end a \<le> seg_start b))"
  by (induction xs) (auto simp: sortedDisjoint_Cons)

lemma heightAt_append:
  "heightAt (xs @ ys) p = (case heightAt xs p of Some h \<Rightarrow> Some h | None \<Rightarrow> heightAt ys p)"
  by (induction xs) auto

lemma heightAt_none_after:
  "\<forall>t \<in> set segs. seg_end t \<le> p \<Longrightarrow> heightAt segs p = None"
  by (induction segs) (auto simp: covers_def)

lemma scanHeight_stop:
  "\<forall>t \<in> set segs. e \<le> seg_start t \<Longrightarrow> scanHeight segs e m = m"
  by (cases segs) auto

lemma getHeight_point:
  assumes "sortedDisjoint (segments c)"
  shows "getHeight c p (p + 1) =
           (case heightAt (segments c) p of None \<Rightarrow> 0 | Some h \<Rightarrow> max 0 h)"
proof (cases "segments c = []")
  case True
  then show ?thesis by (simp add: getHeight_def)
next
  case False
  define pre where "pre = takeWhile (\<lambda>s. seg_start s < p) (segments c)"
  define post where "post = dropWhile (\<lambda>s. seg_start s < p) (segments c)"
  have segs: "segments c = pre @ post" by (simp add: pre_def post_def)
  have i: "lower_bound (segments c) p = length pre" by (simp add: lower_bound_def pre_def)
  have pre_lt: "\<forall>s \<in> set pre. seg_start s < p"
    unfolding pre_def by (auto dest: set_takeWhileD)
  have post_ge: "post \<noteq> [] \<Longrightarrow> p \<le> seg_start (hd post)"
    unfolding post_def using hd_dropWhile [of "\<lambda>s. seg_start s < p" "segments c"] by auto
  have sd: "sortedDisjoint pre" "sortedDisjoint post"
    "\<forall>a \<in> set pre. \<forall>b \<in> set post. seg_end a \<le> seg_start b"
    using assms unfolding segs sortedDisjoint_append by auto
  have post_all: "\<forall>t \<in> set post. p \<le> seg_start t"
  proof (cases post)
    case Nil
    then show ?thesis by simp
  next
    case (Cons t ts)
    then have "p \<le> seg_start t" using post_ge by simp
    moreover have "\<forall>u \<in> set ts. seg_end t \<le> seg_start u" "seg_start t < seg_end t"
      using sd(2) Cons by (simp_all add: sortedDisjoint_Cons)
    ultimately show ?thesis using Cons by fastforce
  qed
  have gh: "getHeight c p (p + 1) =
      (let i = length pre;
           j = (if i \<noteq> 0 \<and> (i = length (pre @ post) \<or> seg_start ((pre @ post) ! i) > p)
                then (if seg_end ((pre @ post) ! (i - 1)) \<le> p then i else i - 1)
                else i)
       in scanHeight (drop j (pre @ post)) (p + 1) 0)"
    using False i segs by (simp add: getHeight_def Let_def)
  have scan_post_gt: "scanHeight post (p + 1) m = m" if "post = [] \<or> p < seg_start (hd post)" for m
  proof (cases post)
    case Nil
    then show ?thesis by simp
  next
    case (Cons t ts)
    then show ?thesis using that by simp
  qed
  have h_post_gt: "heightAt post p = None" if "post = [] \<or> p < seg_start (hd post)"
  proof (cases post)
    case Nil
    then show ?thesis by simp
  next
    case (Cons t ts)
    then have "p < seg_start t" using that by simp
    moreover have "\<forall>u \<in> set ts. seg_end t \<le> seg_start u" "seg_start t < seg_end t"
      using sd(2) Cons by (simp_all add: sortedDisjoint_Cons)
    ultimately have "\<forall>u \<in> set post. p < seg_start u" using Cons by fastforce
    then show ?thesis by (rule heightAt_none_before)
  qed
  have exact: "scanHeight post (p + 1) 0 = max 0 (seg_height (hd post))
               \<and> heightAt post p = Some (seg_height (hd post))"
    if pn: "post \<noteq> []" and ps: "seg_start (hd post) = p"
  proof -
    obtain t ts where c: "post = t # ts" using pn by (cases post) simp_all
    have t: "seg_start t = p" "seg_start t < seg_end t" "\<forall>u \<in> set ts. seg_end t \<le> seg_start u"
      using ps sd(2) c by (simp_all add: sortedDisjoint_Cons)
    have "\<forall>u \<in> set ts. p + 1 \<le> seg_start u" using t by fastforce
    then have "scanHeight ts (p + 1) (max 0 (seg_height t)) = max 0 (seg_height t)"
      by (rule scanHeight_stop)
    then show ?thesis using c t by (simp add: covers_def)
  qed
  show ?thesis
  proof (cases "pre = []")
    case True
    then have post: "post \<noteq> []" using False segs by simp
    show ?thesis
    proof (cases "seg_start (hd post) = p")
      case eq: True
      show ?thesis using gh True exact [OF post eq] segs by simp
    next
      case False
      then have "p < seg_start (hd post)" using post_ge [OF post] by simp
      then show ?thesis
        using gh True scan_post_gt [of 0] h_post_gt segs by simp
    qed
  next
    case pne: False
    define l where "l = last pre"
    define bl where "bl = butlast pre"
    have pre: "pre = bl @ [l]" using pne by (simp add: l_def bl_def)
    have l: "seg_start l < p" using pre_lt pre by simp
    have sdp: "sortedDisjoint bl" "seg_start l < seg_end l" "\<forall>a \<in> set bl. seg_end a \<le> seg_start l"
      using sd(1) unfolding pre sortedDisjoint_append by simp_all
    have hbl: "heightAt bl p = None"
      using sdp(3) l by (intro heightAt_none_after) fastforce
    have n1: "(pre @ post) ! (length pre - 1) = l"
      using pre by (simp add: nth_append)
    have dn: "drop (length pre) (pre @ post) = post" by simp
    have dn1: "drop (length pre - 1) (pre @ post) = l # post"
      using pre by simp
    have lp: "length pre \<noteq> 0" using pne by simp
    show ?thesis
    proof (cases "post \<noteq> [] \<and> seg_start (hd post) = p")
      case True
      then have np: "(pre @ post) ! length pre = hd post" "length pre \<noteq> length (pre @ post)"
        by (simp_all add: nth_append hd_conv_nth)
      have "\<forall>a \<in> set pre. seg_end a \<le> p"
        using sd(3) True by (metis hd_in_set)
      then have "heightAt pre p = None" by (rule heightAt_none_after)
      then show ?thesis
        using gh True exact [of] np dn unfolding segs heightAt_append
        by (simp add: Let_def)
    next
      case False
      then have gt: "post = [] \<or> p < seg_start (hd post)"
        using post_ge by fastforce
      have cond: "length pre = length (pre @ post) \<or> seg_start ((pre @ post) ! length pre) > p"
        using gt by (cases post) (simp_all add: nth_append)
      show ?thesis
      proof (cases "seg_end l \<le> p")
        case True
        have "heightAt pre p = None"
          unfolding pre heightAt_append using hbl True by (simp add: covers_def)
        then show ?thesis
          using gh cond lp n1 True dn scan_post_gt [OF gt, of 0] h_post_gt [OF gt]
          unfolding segs heightAt_append by (simp add: Let_def)
      next
        case False
        have "heightAt pre p = Some (seg_height l)"
          unfolding pre heightAt_append using hbl False l by (simp add: covers_def)
        moreover have "scanHeight (l # post) (p + 1) 0 = max 0 (seg_height l)"
          using l scan_post_gt [OF gt] by simp
        ultimately show ?thesis
          using gh cond lp n1 False dn1
          unfolding segs heightAt_append by (simp add: Let_def)
      qed
    qed
  qed
qed

lemma addSegment_segments:
  assumes "sortedDisjoint (segments c)" "start < end'"
  shows "sortedDisjoint (segments (addSegment c start end' height))
       \<and> fused (segments (addSegment c start end' height))
       \<and> (\<forall>p. heightAt (segments (addSegment c start end' height)) p =
              (if start \<le> p \<and> p < end' then Some height else heightAt (segments c) p))"
proof (cases "segments c = []")
  case True
  then show ?thesis
    using assms(2) by (simp add: addSegment_def mkSegment_def covers_def)
next
  case False
  let ?new = "addLoop start end' height False (segments c)"
  have "\<forall>t \<in> set (segments c). min start (seg_start (hd (segments c))) \<le> seg_start t"
    using assms(1) False by (cases "segments c") (auto simp: sortedDisjoint_Cons)
  from addLoop_False [OF assms(1,2) this, of height]
  have al: "sortedDisjoint ?new"
    "\<forall>p. heightAt ?new p = (if start \<le> p \<and> p < end' then Some height else heightAt (segments c) p)"
    by simp_all
  have srt: "sort_key seg_start ?new = ?new"
    using al(1) by (intro sort_key_id_if_sorted sortedDisjoint_sorted_starts)
  show ?thesis
  proof (cases ?new)
    case Nil
    then show ?thesis
      using al(2) assms(2) by (auto dest: spec [of _ start])
  next
    case (Cons s rest)
    note sr = Cons
    show ?thesis
    proof (cases rest)
      case Nil
      then show ?thesis
        using False assms(2) al srt sr
        by (simp add: addSegment_def mergeSegments_def Let_def)
    next
      case (Cons t ts)
      have "sortedDisjoint (s # rest)" using al(1) sr by simp
      from mergeFrom_heightAt [OF this]
      show ?thesis
        using False assms(2) al srt sr Cons
        by (simp add: addSegment_def mergeSegments_def Let_def)
    qed
  qed
qed


text \<open>
  C3. On a sorted, non-overlapping contour and for \<open>start < end\<close>, \<open>addSegment\<close>
  gives every point of \<open>[start, end)\<close> exactly the new height (it replaces, it takes no
  maximum); every point outside \<open>[start, end)\<close> keeps the height it had, so the parts of
  partially overlapped segments that lie outside survive with their own heights; and in
  the result no two adjacent segments of equal height remain unfused. The result is
  again sorted and non-overlapping. The same is said once with \<open>heightAt\<close> and once with
  the class's own query \<open>getHeight(p, p + 1)\<close>, which reports a height below 0 as 0.
\<close>

theorem addSegment_replaces_splits_fuses:
  assumes "sortedDisjoint (segments c)" "start < end'"
  shows "sortedDisjoint (segments (addSegment c start end' height))
       \<and> fused (segments (addSegment c start end' height))
       \<and> (\<forall>p. heightAt (segments (addSegment c start end' height)) p =
              (if start \<le> p \<and> p < end' then Some height else heightAt (segments c) p))
       \<and> (\<forall>p. getHeight (addSegment c start end' height) p (p + 1) =
              (if start \<le> p \<and> p < end' then max 0 height else getHeight c p (p + 1)))"
proof -
  note seg = addSegment_segments [OF assms, of height]
  have "getHeight (addSegment c start end' height) p (p + 1) =
          (if start \<le> p \<and> p < end' then max 0 height else getHeight c p (p + 1))" for p
    using seg getHeight_point [of "addSegment c start end' height" p]
      getHeight_point [OF assms(1), of p]
    by simp
  then show ?thesis using seg by blast
qed

theorem addSegment_replaces_splits_fuses_witness:
  "sortedDisjoint [mkSegment 0 10 5, mkSegment 10 20 7] \<and> (5::int) < 15
   \<and> segments (addSegment \<lparr>segments = [mkSegment 0 10 5, mkSegment 10 20 7],
                             maxCoordinate = 20, maxHeight = 7\<rparr> 5 15 7)
       = [mkSegment 0 5 5, mkSegment 5 20 7]
   \<and> heightAt (segments (addSegment \<lparr>segments = [mkSegment 0 10 5, mkSegment 10 20 7],
                             maxCoordinate = 20, maxHeight = 7\<rparr> 5 15 7)) 7 = Some 7
   \<and> heightAt (segments (addSegment \<lparr>segments = [mkSegment 0 10 5, mkSegment 10 20 7],
                             maxCoordinate = 20, maxHeight = 7\<rparr> 5 15 7)) 3 = Some 5
   \<and> fused (segments (addSegment \<lparr>segments = [mkSegment 0 10 5, mkSegment 10 20 7],
                             maxCoordinate = 20, maxHeight = 7\<rparr> 5 15 7))
   \<and> getHeight (addSegment \<lparr>segments = [mkSegment 0 10 5, mkSegment 10 20 7],
                             maxCoordinate = 20, maxHeight = 7\<rparr> 5 15 7) 7 8 = 7"
proof -
  define c where "c = \<lparr>segments = [mkSegment 0 10 5, mkSegment 10 20 7],
                        maxCoordinate = 20, maxHeight = 7\<rparr>"
  have s: "sortedDisjoint (segments c)" by (simp add: c_def mkSegment_def)
  have l: "(5::int) < 15" by simp
  note t = addSegment_replaces_splits_fuses [OF s l, of 7]
  have f: "fused (segments (addSegment c 5 15 7))" using t by blast
  have h7: "heightAt (segments (addSegment c 5 15 7)) 7 = Some 7"
    using t by simp
  have h3: "heightAt (segments (addSegment c 5 15 7)) 3 = Some 5"
    using t by (simp add: c_def mkSegment_def covers_def)
  have "getHeight (addSegment c 5 15 7) 7 (7 + 1) = (if (5::int) \<le> 7 \<and> (7::int) < 15 then max 0 7 else getHeight c 7 (7 + 1))"
    using t by blast
  then have g: "getHeight (addSegment c 5 15 7) 7 8 = 7" by simp
  have e: "segments (addSegment c 5 15 7) = [mkSegment 0 5 5, mkSegment 5 20 7]"
    by (simp add: c_def addSegment_def mergeSegments_def mkSegment_def)
  show ?thesis
    using s l f h7 h3 g e unfolding c_def by simp
qed

section \<open>Properties of the HB*-tree\<close>

text \<open>
  C7. A name that is not registered (not a key of \<open>modules\<close> for \<open>rotateModule\<close>, not a
  key of \<open>nodeMap\<close> for \<open>moveNode\<close> and \<open>swapNodes\<close>) makes the perturbation return
  \<open>false\<close> and leaves the whole state as it was: root, links, modules and
  \<open>modifiedSubtrees\<close> are all part of the state that is returned unchanged.
\<close>

theorem unknown_names_change_nothing:
  "(map_of (modules st) moduleName = None \<longrightarrow>
      rotateModule ops st moduleName = Some (False, st))
   \<and> (findNode st nodeName = None \<or> findNode st otherName = None \<longrightarrow>
      moveNode ops st nodeName otherName asLeftChild = Some (False, st)
      \<and> swapNodes ops st nodeName otherName = Some (False, st))"
  by (auto simp: rotateModule_def moveNode_def swapNodes_def split: option.splits)

theorem unknown_names_change_nothing_witness:
  "rotateModule stubASF twoModules ''zz'' = Some (False, twoModules)
   \<and> moveNode stubASF twoModules ''a'' ''zz'' True = Some (False, twoModules)
   \<and> swapNodes stubASF twoModules ''zz'' ''a'' = Some (False, twoModules)"
proof -
  have 1: "map_of (modules twoModules) ''zz'' = None"
    by (simp add: twoModules_def addModule_def emptyTree_def)
  have 2: "findNode twoModules ''a'' = None \<or> findNode twoModules ''zz'' = None"
    by (simp add: twoModules_def addModule_def emptyTree_def findNode_def)
  have 3: "findNode twoModules ''zz'' = None \<or> findNode twoModules ''a'' = None"
    by (simp add: twoModules_def addModule_def emptyTree_def findNode_def)
  show ?thesis
    using unknown_names_change_nothing [of twoModules "''zz''" stubASF "''a''" "''zz''" True]
      unknown_names_change_nothing [of twoModules "''zz''" stubASF "''zz''" "''a''" True] 1 2 3
    by simp
qed

text \<open>
  C6, evaluated where it fails. The initial tree over the modules \<open>a\<close> and \<open>b\<close> has the
  root \<open>a\<close> (node 1) with \<open>b\<close> (node 0) as its left child. After \<open>swapNodes(a, b)\<close> the
  root is \<open>b\<close> and the call returns \<open>true\<close>, but \<open>a\<close> hangs in the right slot of
  \<open>b\<close>, not in the left slot that \<open>b\<close> occupied under \<open>a\<close>: the test
  \<open>node1->getLeftChild() == node2\<close> that chooses the slot runs after that link has been
  cleared.
\<close>

theorem swapNodes_left_child_becomes_right_child:
  "do { st \<leftarrow> constructInitialTree stubASF twoModules;
        Some (findNode st ''a'', findNode st ''b'', root st, getLeftChild st 1, getRightChild st 1,
              getLeftChild st 0, getRightChild st 0) }
     = Some (Some 1, Some 0, Some 1, Some 0, None, None, None)
   \<and> do { st \<leftarrow> constructInitialTree stubASF twoModules;
          (ok, st') \<leftarrow> swapNodes stubASF st ''a'' ''b'';
          Some (ok, root st', getParent st' 0, getLeftChild st' 0, getRightChild st' 0,
                getParent st' 1) }
     = Some (True, Some 0, None, None, Some 1, Some 0)"
  by code_simp

text \<open>
  C2, evaluated where it fails. Of the modules \<open>a\<close> (area 100) and \<open>b\<close> (area 200) the
  area-sorted order is \<open>b, a\<close>, yet the chain that \<open>constructInitialTree\<close> builds starts
  with \<open>a\<close> and continues with \<open>b\<close>: the nodes are stored in the name-keyed map
  \<open>moduleNodes\<close> and the chain is linked in the iteration order of that map. In the
  same way two groups added as \<open>gB\<close>, \<open>gA\<close> are chained as \<open>gA\<close>, \<open>gB\<close>.
\<close>

theorem constructInitialTree_chain_in_name_order:
  "sort_key (\<lambda>k. - areaOf (modules twoModules) k) (map fst (modules twoModules)) = [''b'', ''a'']
   \<and> do { st \<leftarrow> constructInitialTree stubASF twoModules;
          r \<leftarrow> root st;
          l \<leftarrow> getLeftChild st r;
          Some (name (heap st r), name (heap st l), getLeftChild st l, getRightChild st r) }
     = Some (''a'', ''b'', None, None)
   \<and> do { st \<leftarrow> constructInitialTree stubASF
                   (addSymmetryGroup
                      (addSymmetryGroup emptyTree
                         \<lparr>grp_name = ''gB'', symmetryPairs = [], selfSymmetric = []\<rparr>)
                      \<lparr>grp_name = ''gA'', symmetryPairs = [], selfSymmetric = []\<rparr>);
          r \<leftarrow> root st;
          l \<leftarrow> getLeftChild st r;
          Some (map grp_name (symmetryGroups st), name (heap st r), name (heap st l)) }
     = Some ([''gB'', ''gA''], ''gA'', ''gB'')"
  by code_simp

text \<open>
  C5, evaluated where it fails. After \<open>moveNode(b, a, false)\<close> the tree \<open>t\<close> stacks \<open>b\<close>
  on \<open>a\<close> and packs to the area 400; its clone is rebuilt by \<open>constructInitialTree\<close>
  as the initial chain and packs to the area 300.
\<close>

theorem clone_forgets_topology:
  "do { st \<leftarrow> constructInitialTree stubASF twoModules;
        (ok1, st1) \<leftarrow> pack stubASF st;
        (ok2, t) \<leftarrow> moveNode stubASF st1 ''b'' ''a'' False;
        (ok3, t') \<leftarrow> pack stubASF t;
        c \<leftarrow> clone stubASF t;
        (ok4, c') \<leftarrow> pack stubASF c;
        Some (ok2, ok3, ok4, totalArea t', boundingArea (modules t'),
              totalArea c', boundingArea (modules c')) }
     = Some (True, True, True, 400, 400, 300, 300)"
  by code_simp

text \<open>
  C4. Two consecutive full packs that disagree. Two swaps and a move make \<open>m\<close> the root
  with the island \<open>G\<close> as left and \<open>x\<close> as right child, and \<open>y\<close> the right child of \<open>G\<close>;
  a first \<open>pack()\<close> flushes the marks left by them. The next \<open>pack()\<close> finds nothing
  marked and packs from scratch: \<open>y\<close> goes on top of \<open>m\<close> at \<open>(0, 10)\<close> and \<open>x\<close> on top of
  \<open>y\<close> at \<open>(0, 20)\<close>. Its \<open>updateContourNodes\<close> then hangs the new contour node in
  the right slot of \<open>G\<close>, where \<open>y\<close> was: \<open>y\<close> is not a contour node, so it is neither
  collected nor re-attached, and it is out of the tree while its parent link still points
  at \<open>G\<close>. The following \<open>pack()\<close> does not visit \<open>y\<close>, which keeps \<open>(0, 10)\<close>, and puts
  \<open>x\<close> at \<open>(0, 10)\<close> as well.
\<close>

theorem pack_twice_loses_right_child_of_island:
  "do { st \<leftarrow> constructInitialTree columnASF islandInput;
        (ok1, st) \<leftarrow> swapNodes columnASF st ''G'' ''m'';
        (ok2, st) \<leftarrow> swapNodes columnASF st ''G'' ''x'';
        (ok3, st) \<leftarrow> moveNode columnASF st ''y'' ''G'' False;
        (ok4, st) \<leftarrow> pack columnASF st;
        (ok5, s1) \<leftarrow> pack columnASF st;
        (ok6, s2) \<leftarrow> pack columnASF s1;
        Some ((ok1, ok2, ok3, ok4, ok5, ok6),
              (modifiedSubtrees st, modifiedSubtrees s1),
              (root st, map (name \<circ> heap st) [0, 1, 2, 3]),
              (getLeftChild st 1, getRightChild st 1, getLeftChild st 0, getRightChild st 0),
              (getRightChild s1 0, nodeType (heap s1 4), getParent s1 3),
              (position s1 ''a'', position s1 ''m'', position s1 ''y'', position s1 ''x'',
               totalArea s1),
              (position s2 ''a'', position s2 ''m'', position s2 ''y'', position s2 ''x'',
               totalArea s2)) }
     = Some ((True, True, True, True, True, True),
             ([], []),
             (Some 1, [''G'', ''m'', ''x'', ''y'']),
             (Some 0, Some 2, None, Some 3),
             (Some 4, CONTOUR, Some 0),
             (Some (10, 0), Some (0, 0), Some (0, 10), Some (0, 20), 600),
             (Some (10, 0), Some (0, 0), Some (0, 10), Some (0, 10), 400))"
  by code_simp

text \<open>
  Pending marks. After a pack, a second \<open>constructInitialTree\<close> and a rotation (which
  only marks the node, the tree being unpacked), \<open>pack()\<close> takes the incremental path
  over the contour left by the first pack and puts the module at \<open>(0, 10)\<close>; it returns
  \<open>true\<close>. The next \<open>pack()\<close> finds nothing marked, packs from scratch and puts the
  module at \<open>(0, 0)\<close>.
\<close>

lemma pack_incremental_then_full:
  "do { st \<leftarrow> constructInitialTree stubASF oneModule;
        (ok, st) \<leftarrow> pack stubASF st;
        st \<leftarrow> constructInitialTree stubASF st;
        (ok, st) \<leftarrow> rotateModule stubASF st ''a'';
        (ok1, st1) \<leftarrow> pack stubASF st;
        (ok2, st2) \<leftarrow> pack stubASF st1;
        Some (root st \<noteq> None, ok1, ok2, position st1 ''a'', position st2 ''a'') }
     = Some (True, True, True, Some (0, 10), Some (0, 0))"
  by code_simp

text \<open>
  C9, a counterexample. Module \<open>b\<close> joins a symmetry group after the first construction,
  so its old node stays registered in \<open>nodeMap\<close>; moving first \<open>a\<close> and then the
  island \<open>G\<close> (by then a childless root) under that node leaves \<open>root\<close> null while
  \<open>modifiedSubtrees\<close> is not empty. \<open>pack()\<close> then returns \<open>false\<close> and repacks
  nothing.
\<close>

theorem pack_without_root_counterexample:
  "do { st \<leftarrow> constructInitialTree stubASF twoModules;
        st \<leftarrow> constructInitialTree stubASF
                (addSymmetryGroup st
                   \<lparr>grp_name = ''G'', symmetryPairs = [], selfSymmetric = [''b'']\<rparr>);
        (ok1, st) \<leftarrow> moveNode stubASF st ''a'' ''b'' True;
        (ok2, st) \<leftarrow> moveNode stubASF st ''G'' ''b'' False;
        (ok3, st') \<leftarrow> pack stubASF st;
        Some (ok1, ok2, root st, modifiedSubtrees st \<noteq> [], ok3,
              modifiedSubtrees st' = modifiedSubtrees st) }
     = Some (True, True, None, True, False, True)"
  by code_simp







lemma map_of_smap_set_same: "map_of (smap_set ms k v) k = Some v"
  by (induction ms) auto

lemma map_of_smap_set_other: "k' \<noteq> k \<Longrightarrow> map_of (smap_set ms k v) k' = map_of ms k'"
  by (induction ms) auto

lemma map_of_smap_set:
  "map_of (smap_set ms k v) k' = (if k' = k then Some v else map_of ms k')"
  by (induction ms) auto

lemma sameTree_refl: "sameTree A A"
  by (simp add: sameTree_def sameLinks_def)

lemma sameTree_trans: "sameTree A B \<Longrightarrow> sameTree B C \<Longrightarrow> sameTree A C"
  by (auto simp: sameTree_def sameLinks_def)

lemma mergeSegments_maxima:
  "maxCoordinate (mergeSegments c) = maxCoordinate c"
  "maxHeight (mergeSegments c) = maxHeight c"
  by (simp_all add: mergeSegments_def split: list.splits)

lemma addSegment_maxima:
  "maxCoordinate c \<le> maxCoordinate (addSegment c s e h)"
  "maxHeight c \<le> maxHeight (addSegment c s e h)"
  by (simp_all add: addSegment_def Let_def mergeSegments_maxima)

lemma packNode_sameTree: "packNode ops A n = (c, A') \<Longrightarrow> sameTree A A'"
  by (auto simp: packNode_def packModuleNode_def packHierarchyNode_def Let_def sameTree_def
        sameLinks_def addSegment_maxima
      split: HBNodeType.splits option.splits prod.splits)

lemma sameTree_children:
  "sameTree A B \<Longrightarrow> getLeftChild B n = getLeftChild A n"
  "sameTree A B \<Longrightarrow> getRightChild B n = getRightChild A n"
  "sameTree A B \<Longrightarrow> getParent B n = getParent A n"
  by (simp_all add: sameTree_def sameLinks_def getLeftChild_def getRightChild_def getParent_def)

lemma subtreeWithin_sameTree:
  "sameTree A B \<Longrightarrow> subtreeWithin k B n = subtreeWithin k A n"
  by (induction k arbitrary: n) (simp_all add: sameTree_children split: option.splits)

lemma packSubtree_total:
  "subtreeWithin k A n \<Longrightarrow> \<exists>A'. packSubtree ops A n = Some A' \<and> sameTree A A'"
proof (induction k arbitrary: A n)
  case 0
  then show ?case by simp
next
  case (Suc k)
  obtain c A1 where p: "packNode ops A n = (c, A1)" by (cases "packNode ops A n")
  have s1: "sameTree A A1" using p by (rule packNode_sameTree)
  show ?case
  proof (cases c)
    case False
    then show ?thesis using p s1 by (subst packSubtree.simps) simp
  next
    case True
    have "\<exists>A2. (case getLeftChild A1 n of None \<Rightarrow> Some A1 | Some l \<Rightarrow> packSubtree ops A1 l) = Some A2
            \<and> sameTree A1 A2"
    proof (cases "getLeftChild A1 n")
      case None
      then show ?thesis by (simp add: sameTree_refl)
    next
      case (Some l)
      then have "subtreeWithin k A l"
        using Suc.prems s1 by (simp add: sameTree_children)
      then have "subtreeWithin k A1 l" using s1 by (simp add: subtreeWithin_sameTree)
      from Suc.IH [OF this] show ?thesis using Some by simp
    qed
    then obtain A2 where l:
      "(case getLeftChild A1 n of None \<Rightarrow> Some A1 | Some l \<Rightarrow> packSubtree ops A1 l) = Some A2"
      "sameTree A1 A2" by blast
    have s2: "sameTree A A2" using s1 l(2) by (rule sameTree_trans)
    have "\<exists>A3. (case getRightChild A2 n of None \<Rightarrow> Some A2 | Some r \<Rightarrow> packSubtree ops A2 r) = Some A3
            \<and> sameTree A2 A3"
    proof (cases "getRightChild A2 n")
      case None
      then show ?thesis by (simp add: sameTree_refl)
    next
      case (Some r)
      then have "subtreeWithin k A r"
        using Suc.prems s2 by (simp add: sameTree_children)
      then have "subtreeWithin k A2 r" using s2 by (simp add: subtreeWithin_sameTree)
      from Suc.IH [OF this] show ?thesis using Some by simp
    qed
    then obtain A3 where r:
      "(case getRightChild A2 n of None \<Rightarrow> Some A2 | Some r \<Rightarrow> packSubtree ops A2 r) = Some A3"
      "sameTree A2 A3" by blast
    have "packSubtree ops A n = Some A3"
      using p True l(1) r(1) by (subst packSubtree.simps) simp
    then show ?thesis using sameTree_trans [OF s2 r(2)] by blast
  qed
qed

lemma hasModifiedAncestor_total:
  "pathToRoot k st n \<noteq> None \<Longrightarrow> \<exists>b. hasModifiedAncestor st (getParent st n) = Some b"
proof (induction k arbitrary: n)
  case 0
  then show ?case by simp
next
  case (Suc k)
  show ?case
  proof (cases "getParent st n")
    case None
    then show ?thesis by (subst hasModifiedAncestor.simps) auto
  next
    case (Some p)
    then have "pathToRoot k st p \<noteq> None" using Suc.prems by auto
    from Suc.IH [OF this] show ?thesis
      using Some by (subst hasModifiedAncestor.simps) auto
  qed
qed

lemma rootsToRepack_total:
  "\<forall>n \<in> set ns. pathToRoot k st n \<noteq> None \<Longrightarrow>
   \<exists>roots. rootsToRepack st ns = Some roots \<and> set roots \<subseteq> set ns"
proof (induction ns)
  case Nil
  then show ?case by simp
next
  case (Cons n ns)
  then obtain roots where r: "rootsToRepack st ns = Some roots" "set roots \<subseteq> set ns"
    by auto
  obtain b where "hasModifiedAncestor st (getParent st n) = Some b"
    using hasModifiedAncestor_total [of k st n] Cons.prems by auto
  then show ?case using r by auto
qed

lemma depthOf_total:
  "pathToRoot k st n \<noteq> None \<Longrightarrow> \<exists>d. depthOf st n d0 = Some d"
proof (induction k arbitrary: n d0)
  case 0
  then show ?case by simp
next
  case (Suc k)
  show ?case
  proof (cases "getParent st n")
    case None
    then show ?thesis by (subst depthOf.simps) simp
  next
    case (Some p)
    then have "pathToRoot k st p \<noteq> None" using Suc.prems by auto
    from Suc.IH [OF this, of "Suc d0"] show ?thesis
      using Some by (subst depthOf.simps) simp
  qed
qed

lemma depths_total:
  "\<forall>n \<in> set ns. pathToRoot k st n \<noteq> None \<Longrightarrow>
   \<exists>ds. depths st ns = Some ds \<and> map snd ds = ns"
proof (induction ns)
  case Nil
  then show ?case by simp
next
  case (Cons n ns)
  then obtain ds where r: "depths st ns = Some ds" "map snd ds = ns"
    by auto
  obtain d where "depthOf st n 0 = Some d"
    using depthOf_total [of k st n 0] Cons.prems by auto
  then show ?case using r by auto
qed

lemma sortByDepth_total:
  assumes "\<forall>n \<in> set ns. pathToRoot k st n \<noteq> None"
  shows "\<exists>sorted_roots. sortByDepth st ns = Some sorted_roots \<and> set sorted_roots = set ns"
proof (cases "length ns \<le> 1")
  case True
  then show ?thesis by (simp add: sortByDepth_def)
next
  case False
  obtain ds where ds: "depths st ns = Some ds" "map snd ds = ns"
    using depths_total [OF assms] by blast
  have "set (map snd (sort_key (\<lambda>(d, n). - int d) ds)) = set (map snd ds)"
    by simp
  then show ?thesis using False ds by (simp add: sortByDepth_def)
qed

lemma packAll_total:
  "\<forall>n \<in> set ns. subtreeWithin k A n \<Longrightarrow>
   \<exists>A'. packAll ops A ns = Some A' \<and> sameTree A A'"
proof (induction ns arbitrary: A)
  case Nil
  then show ?case by (simp add: sameTree_refl)
next
  case (Cons n ns)
  then obtain A1 where a: "packSubtree ops A n = Some A1" "sameTree A A1"
    using packSubtree_total [of k A n ops] by auto
  have "\<forall>m \<in> set ns. subtreeWithin k A1 m"
    using Cons.prems a(2) by (simp add: subtreeWithin_sameTree)
  from Cons.IH [OF this] obtain A2 where "packAll ops A1 ns = Some A2" "sameTree A1 A2"
    by blast
  then show ?case using a sameTree_trans by fastforce
qed

lemma repackAffectedSubtrees_total:
  assumes "\<forall>n \<in> set (modifiedSubtrees st). pathToRoot k st n \<noteq> None \<and> subtreeWithin k st n"
  shows "\<exists>st'. repackAffectedSubtrees ops st = Some st'
           \<and> sameTree (st\<lparr>modifiedSubtrees := []\<rparr>) st'"
proof (cases "modifiedSubtrees st = []")
  case True
  then show ?thesis by (simp add: repackAffectedSubtrees_def sameTree_def sameLinks_def)
next
  case False
  have p: "\<forall>n \<in> set (modifiedSubtrees st). pathToRoot k st n \<noteq> None" using assms by blast
  obtain roots where r: "rootsToRepack st (modifiedSubtrees st) = Some roots"
    "set roots \<subseteq> set (modifiedSubtrees st)"
    using rootsToRepack_total [OF p] by blast
  have "\<forall>n \<in> set roots. pathToRoot k st n \<noteq> None" using p r(2) by blast
  from sortByDepth_total [OF this]
  obtain sr where s: "sortByDepth st roots = Some sr" "set sr = set roots" by blast
  have "\<forall>n \<in> set sr. subtreeWithin k st n" using assms r(2) s(2) by blast
  from packAll_total [OF this]
  obtain st1 where a: "packAll ops st sr = Some st1" "sameTree st st1" by blast
  have "sameTree (st\<lparr>modifiedSubtrees := []\<rparr>) (st1\<lparr>modifiedSubtrees := []\<rparr>)"
    using a(2) by (simp add: sameTree_def)
  then show ?thesis
    using False r(1) s(1) a(1) by (simp add: repackAffectedSubtrees_def)
qed

text \<open>
  C9, as amended. When \<open>pack()\<close> is called with a root present and \<open>modifiedSubtrees\<close>
  not empty, and the marked nodes have finite subtrees and ending parent chains (so that
  the walks of the repack end), it returns \<open>true\<close> and its whole effect is that of
  \<open>repackAffectedSubtrees\<close>: \<open>isPacked\<close>, \<open>totalArea\<close>, the root, every link, name and
  contour payload of every node and the allocation counter are as before (no contour
  node is created), the cached maxima of both contours have not dropped (nothing was
  cleared), and \<open>modifiedSubtrees\<close> is empty afterwards.
\<close>

theorem pack_with_marks_is_incremental_only:
  assumes "root st = Some r"
    and "modifiedSubtrees st \<noteq> []"
    and "\<forall>n \<in> set (modifiedSubtrees st). pathToRoot k st n \<noteq> None \<and> subtreeWithin k st n"
  shows "\<exists>st'. repackAffectedSubtrees ops st = Some st'
           \<and> pack ops st = Some (True, st')
           \<and> sameTree (st\<lparr>modifiedSubtrees := []\<rparr>) st'
           \<and> isPacked st' = isPacked st \<and> totalArea st' = totalArea st
           \<and> nextPtr st' = nextPtr st \<and> modifiedSubtrees st' = []"
proof -
  obtain st' where s: "repackAffectedSubtrees ops st = Some st'"
    "sameTree (st\<lparr>modifiedSubtrees := []\<rparr>) st'"
    using repackAffectedSubtrees_total [OF assms(3)] by blast
  have "pack ops st = Some (True, st')"
    using assms(1,2) s(1) by (simp add: pack_def)
  then show ?thesis using s by (auto simp: sameTree_def)
qed

theorem pack_with_marks_is_incremental_only_witness:
  "\<exists>st'. repackAffectedSubtrees stubASF markedTwo = Some st'
           \<and> pack stubASF markedTwo = Some (True, st')
           \<and> sameTree (markedTwo\<lparr>modifiedSubtrees := []\<rparr>) st'
           \<and> isPacked st' = isPacked markedTwo \<and> totalArea st' = totalArea markedTwo
           \<and> nextPtr st' = nextPtr markedTwo \<and> modifiedSubtrees st' = []"
proof -
  have 1: "root markedTwo = Some 1" by code_simp
  have 2: "modifiedSubtrees markedTwo \<noteq> []" by code_simp
  have 3: "\<forall>n \<in> set (modifiedSubtrees markedTwo).
             pathToRoot 2 markedTwo n \<noteq> None \<and> subtreeWithin 2 markedTwo n"
    by code_simp
  show ?thesis
    by (rule pack_with_marks_is_incremental_only [OF 1 2 3])
qed

text \<open>
  C1, a counterexample. The island \<open>G\<close> holds one module 25 wide and reports its axis at
  12.5. Its left child, the island \<open>H\<close>, is put at \<open>x = 12\<close>, the axis position without
  its fractional part, and not at the axis position.
\<close>

theorem packSubtree_truncates_axis_counterexample:
  "do { st \<leftarrow> constructInitialTree columnASF columnInput;
        (ok, st') \<leftarrow> pack columnASF st;
        Some (ok, getParent st' 1, isLeftChild st' 1, nodeType (heap st' 0),
              map_option (asfGetSymmetryAxisPosition columnASF) (getASFTree (heap st' 0)),
              position st' ''b'') }
     = Some (True, Some 0, True, HIERARCHY, Some (25 / 2), Some (12, 10))"
  by code_simp

text \<open>
  A root with a parent link. Module \<open>b\<close> joins the group \<open>G\<close> after the first
  construction, so the node it had stays registered in \<open>nodeMap\<close>. Moving the root \<open>G\<close>
  under that node makes the child \<open>a\<close> of \<open>G\<close> the root and leaves its parent link on
  \<open>G\<close>. After a first \<open>pack()\<close> has flushed the marks, \<open>pack()\<close> packs from the root
  \<open>a\<close> and puts it at \<open>x = 10\<close>, the axis position of \<open>G\<close>, as a left child of \<open>G\<close>.
  (The left-over node of \<open>b\<close> has a parent link of its own, expired in the source and
  still set here; that changes what the first \<open>pack()\<close> repacks, not the values
  below.)
\<close>

lemma root_with_parent_link:
  "do { st \<leftarrow> constructInitialTree columnASF
                (addModule (addModule emptyTree ''a'' (mkModule 10 10)) ''b'' (mkModule 20 10));
        st \<leftarrow> constructInitialTree columnASF
                (addSymmetryGroup st
                   \<lparr>grp_name = ''G'', symmetryPairs = [], selfSymmetric = [''b'']\<rparr>);
        (ok1, st) \<leftarrow> moveNode columnASF st ''G'' ''b'' True;
        (ok2, st) \<leftarrow> pack columnASF st;
        (ok3, st') \<leftarrow> pack columnASF st;
        Some (ok1, ok2, ok3, modifiedSubtrees st, root st,
              map_option (name \<circ> heap st) (root st),
              map_option (name \<circ> heap st) (Option.bind (root st) (getParent st)),
              position st' ''a'') }
     = Some (True, True, True, [], Some 3, Some ''a'', Some ''G'', Some (10, 0))"
  by code_simp

lemma fold_min_Min:
  "fold (\<lambda>m acc. min acc (f m)) xs (b::int) = Min (insert b (f ` set xs))"
proof (induction xs arbitrary: b)
  case Nil
  then show ?case by simp
next
  case (Cons a xs)
  have "Min (insert (min b (f a)) (f ` set xs)) = Min (insert b (insert (f a) (f ` set xs)))"
    by (cases "f ` set xs = {}") (auto simp: min.assoc)
  then show ?case using Cons by simp
qed

lemma fold_max_Max:
  "fold (\<lambda>m acc. max acc (f m)) xs (b::int) = Max (insert b (f ` set xs))"
proof (induction xs arbitrary: b)
  case Nil
  then show ?case by simp
next
  case (Cons a xs)
  have "Max (insert (max b (f a)) (f ` set xs)) = Max (insert b (insert (f a) (f ` set xs)))"
    by (cases "f ` set xs = {}") (auto simp: max.assoc)
  then show ?case using Cons by simp
qed

lemma shiftModules_position:
  "distinct names \<Longrightarrow>
   map_of (shiftModules names dx dy ms) k =
     (if k \<in> set names
      then map_option (\<lambda>m. m\<lparr>mod_x := mod_x m + dx, mod_y := mod_y m + dy\<rparr>) (map_of ms k)
      else map_of ms k)"
proof (induction names arbitrary: ms)
  case Nil
  then show ?case by (simp add: shiftModules_def)
next
  case (Cons a names)
  have d: "distinct names" and na: "a \<notin> set names" using Cons.prems by auto
  have unf: "shiftModules (a # names) dx dy ms =
      shiftModules names dx dy
        (case map_of ms a of None \<Rightarrow> ms
         | Some m \<Rightarrow> smap_set ms a (setPosition m (mod_x m + dx) (mod_y m + dy)))"
    by (simp add: shiftModules_def)
  show ?case
  proof (cases "map_of ms a")
    case None
    then show ?thesis using Cons.IH [OF d, of ms] unf na by auto
  next
    case (Some m)
    then show ?thesis
      using Cons.IH [OF d, of "smap_set ms a (setPosition m (mod_x m + dx) (mod_y m + dy))"] unf na
      by (auto simp: map_of_smap_set setPosition_def)
  qed
qed


lemma packNode_registered: "fst (packNode ops s n) = registered s n"
  by (auto simp: packNode_def packModuleNode_def packHierarchyNode_def registered_def Let_def
      split: HBNodeType.splits option.splits prod.splits)

lemma dom_smap_set: "dom (map_of (smap_set ms k v)) = insert k (dom (map_of ms))"
  by (auto simp: map_of_smap_set dom_def)

lemma shiftModules_dom: "dom (map_of (shiftModules names dx dy ms)) = dom (map_of ms)"
proof (induction names arbitrary: ms)
  case Nil
  then show ?case by (simp add: shiftModules_def)
next
  case (Cons a names)
  have unf: "shiftModules (a # names) dx dy ms =
      shiftModules names dx dy
        (case map_of ms a of None \<Rightarrow> ms
         | Some m \<Rightarrow> smap_set ms a (setPosition m (mod_x m + dx) (mod_y m + dy)))"
    by (simp add: shiftModules_def)
  show ?case
    unfolding unf using Cons.IH by (auto simp: dom_smap_set split: option.splits)
qed

lemma packNode_dom:
  assumes "\<forall>a ms. dom (map_of (snd (asfPack ops a ms))) = dom (map_of ms)"
  shows "dom (map_of (modules (snd (packNode ops s n)))) = dom (map_of (modules s))"
proof (cases "nodeType (heap s n)")
  case MODULE
  then show ?thesis
    by (auto simp: packNode_def packModuleNode_def Let_def dom_smap_set split: option.splits)
next
  case HIERARCHY
  show ?thesis
  proof (cases "getASFTree (heap s n)")
    case None
    then show ?thesis using HIERARCHY by (simp add: packNode_def packHierarchyNode_def)
  next
    case (Some a0)
    obtain a ms where p: "asfPack ops a0 (modules s) = (a, ms)" by (cases "asfPack ops a0 (modules s)")
    have "dom (map_of ms) = dom (map_of (modules s))"
      using assms p by (metis snd_conv)
    then show ?thesis
      using HIERARCHY Some p
      by (simp add: packNode_def packHierarchyNode_def Let_def shiftModules_dom)
  qed
next
  case CONTOUR
  then show ?thesis by (simp add: packNode_def)
qed

lemma packNode_asfTree:
  "(getASFTree (heap (snd (packNode ops s n)) n') = None) = (getASFTree (heap s n') = None)"
  by (auto simp: packNode_def packModuleNode_def packHierarchyNode_def Let_def getASFTree_def
      split: HBNodeType.splits option.splits prod.splits)

lemma packNode_sameShape:
  assumes "\<forall>a ms. dom (map_of (snd (asfPack ops a ms))) = dom (map_of ms)"
  shows "sameShape s (snd (packNode ops s n))"
proof -
  have t: "sameTree s (snd (packNode ops s n))"
    by (rule packNode_sameTree [of ops s n "fst (packNode ops s n)"]) simp
  have d: "\<And>k. (map_of (modules (snd (packNode ops s n))) k = None) = (map_of (modules s) k = None)"
    using packNode_dom [OF assms, of s n] by (metis domIff)
  have l: "\<And>n'. sameLinks (heap s n') (heap (snd (packNode ops s n)) n')"
    using t by (simp add: sameTree_def)
  have "registered (snd (packNode ops s n)) n' = registered s n'" for n'
    using d l [of n'] packNode_asfTree [of ops s n n']
    by (simp add: registered_def sameLinks_def getModuleName_def split: HBNodeType.splits)
  then show ?thesis using t by (simp add: sameShape_def)
qed

lemma sameShape_refl: "sameShape A A"
  by (simp add: sameShape_def sameTree_refl)

lemma sameShape_trans: "sameShape A B \<Longrightarrow> sameShape B C \<Longrightarrow> sameShape A C"
  using sameTree_trans by (fastforce simp: sameShape_def)

lemma fold_packNode_sameShape:
  assumes "\<forall>a ms. dom (map_of (snd (asfPack ops a ms))) = dom (map_of ms)"
  shows "sameShape s (fold (\<lambda>n s. snd (packNode ops s n)) ns s)"
proof (induction ns arbitrary: s)
  case Nil
  then show ?case by (simp add: sameShape_refl)
next
  case (Cons a ns)
  show ?case
    using sameShape_trans [OF packNode_sameShape [OF assms, of s a] Cons.IH] by simp
qed

lemma packOrder_sameShape:
  "sameShape A B \<Longrightarrow> packOrder k B n = packOrder k A n"
proof (induction k arbitrary: n)
  case 0
  then show ?case by simp
next
  case (Suc k)
  have c: "getLeftChild B n = getLeftChild A n" "getRightChild B n = getRightChild A n"
    using Suc.prems by (simp_all add: sameShape_def sameTree_children)
  have r: "registered B n = registered A n" using Suc.prems by (simp add: sameShape_def)
  show ?case using Suc.IH [OF Suc.prems] c r by (simp split: option.splits)
qed

lemma packSubtree_order:
  assumes keeps: "\<forall>a ms. dom (map_of (snd (asfPack ops a ms))) = dom (map_of ms)"
  shows "subtreeWithin k A n \<Longrightarrow>
         packSubtree ops A n = Some (fold (\<lambda>n s. snd (packNode ops s n)) (packOrder k A n) A)"
proof (induction k arbitrary: A n)
  case 0
  then show ?case by simp
next
  case (Suc k)
  let ?f = "\<lambda>n s. snd (packNode ops s n)"
  obtain c A1 where p: "packNode ops A n = (c, A1)" by (cases "packNode ops A n")
  have c: "c = registered A n" using packNode_registered [of ops A n] p by simp
  have A1: "A1 = ?f n A" using p by simp
  have s1: "sameShape A A1" using packNode_sameShape [OF keeps, of A n] p by simp
  have t1: "sameTree A A1" using s1 by (simp add: sameShape_def)
  have c1: "getLeftChild A1 n = getLeftChild A n" using t1 by (rule sameTree_children)
  show ?case
  proof (cases c)
    case False
    then show ?thesis using p c by (subst packSubtree.simps) simp
  next
    case True
    define L where "L = (case getLeftChild A n of None \<Rightarrow> [] | Some l \<Rightarrow> packOrder k A l)"
    define R where "R = (case getRightChild A n of None \<Rightarrow> [] | Some r \<Rightarrow> packOrder k A r)"
    define A2 where "A2 = fold ?f L A1"
    define A3 where "A3 = fold ?f R A2"
    have s2: "sameShape A A2"
      unfolding A2_def using sameShape_trans [OF s1 fold_packNode_sameShape [OF keeps]] .
    have t2: "sameTree A A2" using s2 by (simp add: sameShape_def)
    have c2: "getRightChild A2 n = getRightChild A n" using t2 by (rule sameTree_children)
    have l: "(case getLeftChild A1 n of None \<Rightarrow> Some A1 | Some l \<Rightarrow> packSubtree ops A1 l) = Some A2"
    proof (cases "getLeftChild A n")
      case None
      then show ?thesis using c1 by (simp add: A2_def L_def)
    next
      case (Some l)
      then have "subtreeWithin k A l" using Suc.prems by simp
      then have "subtreeWithin k A1 l" using subtreeWithin_sameTree [OF t1, of k l] by simp
      from Suc.IH [OF this] show ?thesis
        using Some c1 packOrder_sameShape [OF s1, of k l]
        by (simp add: A2_def L_def)
    qed
    have r: "(case getRightChild A2 n of None \<Rightarrow> Some A2 | Some r \<Rightarrow> packSubtree ops A2 r) = Some A3"
    proof (cases "getRightChild A n")
      case None
      then show ?thesis using c2 by (simp add: A3_def R_def)
    next
      case (Some r)
      then have "subtreeWithin k A r" using Suc.prems by simp
      then have "subtreeWithin k A2 r" using subtreeWithin_sameTree [OF t2, of k r] by simp
      from Suc.IH [OF this] show ?thesis
        using Some c2 packOrder_sameShape [OF s2, of k r]
        by (simp add: A3_def R_def)
    qed
    have "packSubtree ops A n = Some A3"
      using p True l r by (subst packSubtree.simps) simp
    moreover have "fold ?f (packOrder (Suc k) A n) A = A3"
      using True c by (simp add: A3_def A2_def A1 L_def R_def)
    ultimately show ?thesis by simp
  qed
qed

lemma packOrder_hd: "0 < k \<Longrightarrow> hd (packOrder k st n) = n"
  by (cases k) simp_all

lemma packOrder_head: "packOrder k st n \<noteq> [] \<Longrightarrow> packOrder k st n ! 0 = n"
  by (cases k) simp_all

lemma packOrder_parent_first:
  "0 < i \<Longrightarrow> i < length (packOrder k st n) \<Longrightarrow>
   \<exists>j<i. getLeftChild st (packOrder k st n ! j) = Some (packOrder k st n ! i)
        \<or> getRightChild st (packOrder k st n ! j) = Some (packOrder k st n ! i)"
proof (induction k arbitrary: n i)
  case 0
  then show ?case by simp
next
  case (Suc k)
  define L where "L = (case getLeftChild st n of None \<Rightarrow> [] | Some l \<Rightarrow> packOrder k st l)"
  define R where "R = (case getRightChild st n of None \<Rightarrow> [] | Some r \<Rightarrow> packOrder k st r)"
  have reg: "registered st n" using Suc.prems by (auto split: if_splits)
  then have ord: "packOrder (Suc k) st n = n # L @ R" by (simp add: L_def R_def)
  have i: "i - 1 < length (L @ R)" using Suc.prems ord by auto
  have el: "packOrder (Suc k) st n ! i = (L @ R) ! (i - 1)"
    using Suc.prems(1) ord by (cases i) simp_all
  have inL: "\<exists>j<i. getLeftChild st ((n # L @ R) ! j) = Some (L ! m)
                  \<or> getRightChild st ((n # L @ R) ! j) = Some (L ! m)"
    if m: "m < length L" and im: "i = Suc m" for m
  proof (cases "getLeftChild st n")
    case None
    then show ?thesis using m by (simp add: L_def)
  next
    case (Some l)
    then have Ll: "L = packOrder k st l" by (simp add: L_def)
    show ?thesis
    proof (cases m)
      case 0
      have "packOrder k st l \<noteq> []" using m Ll by auto
      then have "L ! 0 = l" using Ll packOrder_head [of k st l] by simp
      then show ?thesis using 0 Some im by (intro exI [of _ 0]) simp
    next
      case (Suc m')
      from Suc.IH [of m l] m Ll Suc
      obtain j where j: "j < m" "getLeftChild st (L ! j) = Some (L ! m)
                           \<or> getRightChild st (L ! j) = Some (L ! m)" by auto
      have "(n # L @ R) ! Suc j = L ! j" using j(1) m by (simp add: nth_append)
      then show ?thesis using j im by (intro exI [of _ "Suc j"]) simp
    qed
  qed
  have inR: "\<exists>j<i. getLeftChild st ((n # L @ R) ! j) = Some (R ! m)
                  \<or> getRightChild st ((n # L @ R) ! j) = Some (R ! m)"
    if m: "m < length R" and im: "i = Suc (length L + m)" for m
  proof (cases "getRightChild st n")
    case None
    then show ?thesis using m by (simp add: R_def)
  next
    case (Some r)
    then have Rr: "R = packOrder k st r" by (simp add: R_def)
    show ?thesis
    proof (cases m)
      case 0
      have "packOrder k st r \<noteq> []" using m Rr by auto
      then have "R ! 0 = r" using Rr packOrder_head [of k st r] by simp
      then show ?thesis using 0 Some im by (intro exI [of _ 0]) simp
    next
      case (Suc m')
      from Suc.IH [of m r] m Rr Suc
      obtain j where j: "j < m" "getLeftChild st (R ! j) = Some (R ! m)
                           \<or> getRightChild st (R ! j) = Some (R ! m)" by auto
      have "(n # L @ R) ! Suc (length L + j) = R ! j" by (simp add: nth_append)
      then show ?thesis using j im by (intro exI [of _ "Suc (length L + j)"]) simp
    qed
  qed
  show ?case
  proof (cases "i - 1 < length L")
    case True
    have "(L @ R) ! (i - 1) = L ! (i - 1)" using True by (simp add: nth_append)
    then show ?thesis using inL [of "i - 1"] True Suc.prems(1) el ord by simp
  next
    case False
    have "(L @ R) ! (i - 1) = R ! (i - 1 - length L)" using False by (simp add: nth_append)
    moreover have "i - 1 - length L < length R" using False i by simp
    moreover have "i = Suc (length L + (i - 1 - length L))" using False Suc.prems(1) by simp
    ultimately show ?thesis using inR [of "i - 1 - length L"] el ord by simp
  qed
qed


lemma xCoordinate_root: "getParent s n = None \<Longrightarrow> xCoordinate ops s n = 0"
  by (simp add: xCoordinate_def)

lemma xCoordinate_left:
  "getParent s n = Some p \<Longrightarrow> isLeftChild s n \<Longrightarrow>
     (\<forall>pm. nodeType (heap s p) = MODULE \<and> map_of (modules s) (name (heap s p)) = Some pm
           \<longrightarrow> xCoordinate ops s n = mod_x pm + mod_width pm)
     \<and> (\<forall>pa. nodeType (heap s p) = HIERARCHY \<and> asfTree (heap s p) = Some pa
           \<longrightarrow> xCoordinate ops s n = static_cast_int (asfGetSymmetryAxisPosition ops pa))
     \<and> (nodeType (heap s p) = CONTOUR \<longrightarrow> xCoordinate ops s n = contourX2 (heap s p))"
  by (auto simp: xCoordinate_def Let_def getModuleName_def getASFTree_def getContour_def)

lemma xCoordinate_right:
  "getParent s n = Some p \<Longrightarrow> \<not> isLeftChild s n \<Longrightarrow>
     (\<forall>pm. nodeType (heap s p) = MODULE \<and> map_of (modules s) (name (heap s p)) = Some pm
           \<longrightarrow> xCoordinate ops s n = mod_x pm)
     \<and> (nodeType (heap s p) = HIERARCHY \<longrightarrow> xCoordinate ops s n = 0)
     \<and> (nodeType (heap s p) = CONTOUR \<longrightarrow> xCoordinate ops s n = contourX1 (heap s p))"
  by (auto simp: xCoordinate_def Let_def getModuleName_def getASFTree_def getContour_def)

lemma packNode_module:
  assumes "nodeType (heap s n) = MODULE" and "map_of (modules s) (name (heap s n)) = Some m"
      and "x = xCoordinate ops s n" and "y = getHeight (horizontalContour s) x (x + mod_width m)"
      and "s' = snd (packNode ops s n)"
  shows "map_of (modules s') (name (heap s n)) = Some (m\<lparr>mod_x := x, mod_y := y\<rparr>)
       \<and> (\<forall>nm. nm \<noteq> name (heap s n) \<longrightarrow> map_of (modules s') nm = map_of (modules s) nm)
       \<and> horizontalContour s' =
           addSegment (horizontalContour s) x (x + mod_width m) (y + mod_height m)
       \<and> verticalContour s' =
           addSegment (verticalContour s) y (y + mod_height m) (x + mod_width m)"
  using assms
  by (simp add: packNode_def packModuleNode_def Let_def getModuleName_def setPosition_def
        map_of_smap_set)

lemma packNode_hierarchy:
  assumes "nodeType (heap s n) = HIERARCHY" and "asfTree (heap s n) = Some a0"
      and "asfPack ops a0 (modules s) = (a, ms)"
      and "distinct (asfGetModules ops a)"
      and "island = islandModules ops a ms"
      and "minX = Min (insert INT_MAX (mod_x ` set island))"
      and "minY = Min (insert INT_MAX (mod_y ` set island))"
      and "w = Max (insert 0 ((\<lambda>m. mod_x m + mod_width m) ` set island)) - minX"
      and "h = Max (insert 0 ((\<lambda>m. mod_y m + mod_height m) ` set island)) - minY"
      and "x = xCoordinate ops
                 (s\<lparr>modules := ms, heap := (heap s)(n := (heap s n)\<lparr>asfTree := Some a\<rparr>)\<rparr>) n"
      and "y = getHeight (horizontalContour s) x (x + w)"
      and "s' = snd (packNode ops s n)"
  shows "(\<forall>nm. map_of (modules s') nm =
            (if nm \<in> set (asfGetModules ops a)
             then map_option (\<lambda>m. m\<lparr>mod_x := mod_x m + (x - minX), mod_y := mod_y m + (y - minY)\<rparr>)
                    (map_of ms nm)
             else map_of ms nm))
       \<and> asfTree (heap s' n) = Some a
       \<and> horizontalContour s' = addSegment (horizontalContour s) x (x + w) (y + h)
       \<and> verticalContour s' = addSegment (verticalContour s) y (y + h) (x + w)"
proof -
  have g: "getASFTree (heap s n) = Some a0" using assms(1,2) by (simp add: getASFTree_def)
  have s': "s' = s\<lparr>modules := shiftModules (asfGetModules ops a) (x - minX) (y - minY) ms,
                   heap := (heap s)(n := (heap s n)\<lparr>asfTree := Some a\<rparr>),
                   horizontalContour := addSegment (horizontalContour s) x (x + w) (y + h),
                   verticalContour := addSegment (verticalContour s) y (y + h) (x + w)\<rparr>"
    using assms(1,3,5-12) g
    by (simp add: packNode_def packHierarchyNode_def Let_def fold_min_Min fold_max_Max)
  show ?thesis
    unfolding s' using shiftModules_position [OF assms(4)] by simp
qed

text \<open>
  C1, as amended. \<open>packSubtree(r)\<close> on a finite subtree returns, and its result is that of
  placing the nodes of \<open>packOrder\<close> one after the other (\<open>packNode\<close> is the \<open>switch\<close>
  of its body): \<open>r\<close> first, and every other node after the node whose child it is, so
  that the parent's coordinates which a node reads are those of this run. The island's
  \<open>pack()\<close> is taken to leave the key set of \<open>modules\<close> alone (it holds \<open>Module\<close>
  objects, not the map).

  Placing one node \<open>n\<close> in a state \<open>s\<close>: the x-coordinate is 0 at a node without parent
  link, which is what the source tests and what the root is in a tree whose root has no
  parent; at a left child it is the parent's \<open>x + width\<close> under a Module parent, the
  parent island's axis position \<^emph>\<open>converted by\<close> \<open>static_cast<int>\<close> under a Hierarchy
  parent, and \<open>x2\<close> under a Contour parent; at any other child it is the parent's \<open>x\<close>,
  0 and \<open>x1\<close>. A Module node with its module \<open>m\<close> registered puts \<open>m\<close> at \<open>(x, y)\<close>
  with \<open>y = horizontalContour.getHeight(x, x + w)\<close>, moves no other module, and the
  horizontal contour receives \<open>[x, x + w)\<close> at \<open>y + h\<close>. A Hierarchy node first packs
  its island; with \<open>minX\<close>, \<open>minY\<close> the lower-left corner and \<open>w\<close>, \<open>h\<close> the width and
  height of the bounding box of the island's modules (computed from the initial values
  \<open>INT_MAX\<close> and 0 of the source), \<open>y\<close> is again \<open>getHeight(x, x + w)\<close>, every module of
  the island ends at its packed position moved by \<open>(x - minX, y - minY)\<close>, no other
  module moves, and the contour receives \<open>[x, x + w)\<close> at \<open>y + h\<close>. The names that
  \<open>getModules()\<close> yields are the keys of a map, hence distinct.
\<close>

theorem packSubtree_coordinates:
  assumes "subtreeWithin k st r"
      and "\<forall>a ms. dom (map_of (snd (asfPack ops a ms))) = dom (map_of ms)"
  shows "packSubtree ops st r = Some (fold (\<lambda>n s. snd (packNode ops s n)) (packOrder k st r) st)
   \<and> packOrder k st r ! 0 = r
   \<and> (\<forall>i. 0 < i \<and> i < length (packOrder k st r) \<longrightarrow>
        (\<exists>j<i. getLeftChild st (packOrder k st r ! j) = Some (packOrder k st r ! i)
              \<or> getRightChild st (packOrder k st r ! j) = Some (packOrder k st r ! i)))
   \<and> (\<forall>s n. getParent s n = None \<longrightarrow> xCoordinate ops s n = 0)
   \<and> (\<forall>s n p. getParent s n = Some p \<and> isLeftChild s n \<longrightarrow>
        (\<forall>pm. nodeType (heap s p) = MODULE \<and> map_of (modules s) (name (heap s p)) = Some pm
              \<longrightarrow> xCoordinate ops s n = mod_x pm + mod_width pm)
        \<and> (\<forall>pa. nodeType (heap s p) = HIERARCHY \<and> asfTree (heap s p) = Some pa
              \<longrightarrow> xCoordinate ops s n = static_cast_int (asfGetSymmetryAxisPosition ops pa))
        \<and> (nodeType (heap s p) = CONTOUR \<longrightarrow> xCoordinate ops s n = contourX2 (heap s p)))
   \<and> (\<forall>s n p. getParent s n = Some p \<and> \<not> isLeftChild s n \<longrightarrow>
        (\<forall>pm. nodeType (heap s p) = MODULE \<and> map_of (modules s) (name (heap s p)) = Some pm
              \<longrightarrow> xCoordinate ops s n = mod_x pm)
        \<and> (nodeType (heap s p) = HIERARCHY \<longrightarrow> xCoordinate ops s n = 0)
        \<and> (nodeType (heap s p) = CONTOUR \<longrightarrow> xCoordinate ops s n = contourX1 (heap s p)))
   \<and> (\<forall>s n m x y s'.
         nodeType (heap s n) = MODULE \<and> map_of (modules s) (name (heap s n)) = Some m
         \<and> x = xCoordinate ops s n
         \<and> y = getHeight (horizontalContour s) x (x + mod_width m)
         \<and> s' = snd (packNode ops s n)
         \<longrightarrow> map_of (modules s') (name (heap s n)) = Some (m\<lparr>mod_x := x, mod_y := y\<rparr>)
             \<and> (\<forall>nm. nm \<noteq> name (heap s n) \<longrightarrow> map_of (modules s') nm = map_of (modules s) nm)
             \<and> horizontalContour s' =
                 addSegment (horizontalContour s) x (x + mod_width m) (y + mod_height m)
             \<and> verticalContour s' =
                 addSegment (verticalContour s) y (y + mod_height m) (x + mod_width m))
   \<and> (\<forall>s n a0 a ms island minX minY w h x y s'.
         nodeType (heap s n) = HIERARCHY \<and> asfTree (heap s n) = Some a0
         \<and> asfPack ops a0 (modules s) = (a, ms)
         \<and> distinct (asfGetModules ops a)
         \<and> island = islandModules ops a ms
         \<and> minX = Min (insert INT_MAX (mod_x ` set island))
         \<and> minY = Min (insert INT_MAX (mod_y ` set island))
         \<and> w = Max (insert 0 ((\<lambda>m. mod_x m + mod_width m) ` set island)) - minX
         \<and> h = Max (insert 0 ((\<lambda>m. mod_y m + mod_height m) ` set island)) - minY
         \<and> x = xCoordinate ops
                  (s\<lparr>modules := ms, heap := (heap s)(n := (heap s n)\<lparr>asfTree := Some a\<rparr>)\<rparr>) n
         \<and> y = getHeight (horizontalContour s) x (x + w)
         \<and> s' = snd (packNode ops s n)
         \<longrightarrow> (\<forall>nm. map_of (modules s') nm =
                  (if nm \<in> set (asfGetModules ops a)
                   then map_option
                          (\<lambda>m. m\<lparr>mod_x := mod_x m + (x - minX), mod_y := mod_y m + (y - minY)\<rparr>)
                          (map_of ms nm)
                   else map_of ms nm))
             \<and> asfTree (heap s' n) = Some a
             \<and> horizontalContour s' = addSegment (horizontalContour s) x (x + w) (y + h)
             \<and> verticalContour s' = addSegment (verticalContour s) y (y + h) (x + w))"
proof -
  have k: "0 < k" using assms(1) by (cases k) simp_all
  then have ne: "packOrder k st r \<noteq> []" by (cases k) simp_all
  have 1: "packSubtree ops st r
             = Some (fold (\<lambda>n s. snd (packNode ops s n)) (packOrder k st r) st)"
    using packSubtree_order [OF assms(2) assms(1)] .
  have 2: "packOrder k st r ! 0 = r" using ne by (rule packOrder_head)
  have 3: "\<forall>i. 0 < i \<and> i < length (packOrder k st r) \<longrightarrow>
        (\<exists>j<i. getLeftChild st (packOrder k st r ! j) = Some (packOrder k st r ! i)
              \<or> getRightChild st (packOrder k st r ! j) = Some (packOrder k st r ! i))"
    using packOrder_parent_first by blast
  have 4: "\<forall>s n. getParent s n = None \<longrightarrow> xCoordinate ops s n = 0"
    by (simp add: xCoordinate_root)
  have 5: "\<forall>s n p. getParent s n = Some p \<and> isLeftChild s n \<longrightarrow>
        (\<forall>pm. nodeType (heap s p) = MODULE \<and> map_of (modules s) (name (heap s p)) = Some pm
              \<longrightarrow> xCoordinate ops s n = mod_x pm + mod_width pm)
        \<and> (\<forall>pa. nodeType (heap s p) = HIERARCHY \<and> asfTree (heap s p) = Some pa
              \<longrightarrow> xCoordinate ops s n = static_cast_int (asfGetSymmetryAxisPosition ops pa))
        \<and> (nodeType (heap s p) = CONTOUR \<longrightarrow> xCoordinate ops s n = contourX2 (heap s p))"
    using xCoordinate_left by blast
  have 6: "\<forall>s n p. getParent s n = Some p \<and> \<not> isLeftChild s n \<longrightarrow>
        (\<forall>pm. nodeType (heap s p) = MODULE \<and> map_of (modules s) (name (heap s p)) = Some pm
              \<longrightarrow> xCoordinate ops s n = mod_x pm)
        \<and> (nodeType (heap s p) = HIERARCHY \<longrightarrow> xCoordinate ops s n = 0)
        \<and> (nodeType (heap s p) = CONTOUR \<longrightarrow> xCoordinate ops s n = contourX1 (heap s p))"
    using xCoordinate_right by blast
  have 7: "\<forall>s n m x y s'.
         nodeType (heap s n) = MODULE \<and> map_of (modules s) (name (heap s n)) = Some m
         \<and> x = xCoordinate ops s n
         \<and> y = getHeight (horizontalContour s) x (x + mod_width m)
         \<and> s' = snd (packNode ops s n)
         \<longrightarrow> map_of (modules s') (name (heap s n)) = Some (m\<lparr>mod_x := x, mod_y := y\<rparr>)
             \<and> (\<forall>nm. nm \<noteq> name (heap s n) \<longrightarrow> map_of (modules s') nm = map_of (modules s) nm)
             \<and> horizontalContour s' =
                 addSegment (horizontalContour s) x (x + mod_width m) (y + mod_height m)
             \<and> verticalContour s' =
                 addSegment (verticalContour s) y (y + mod_height m) (x + mod_width m)"
    using packNode_module by blast
  have 8: "\<forall>s n a0 a ms island minX minY w h x y s'.
         nodeType (heap s n) = HIERARCHY \<and> asfTree (heap s n) = Some a0
         \<and> asfPack ops a0 (modules s) = (a, ms)
         \<and> distinct (asfGetModules ops a)
         \<and> island = islandModules ops a ms
         \<and> minX = Min (insert INT_MAX (mod_x ` set island))
         \<and> minY = Min (insert INT_MAX (mod_y ` set island))
         \<and> w = Max (insert 0 ((\<lambda>m. mod_x m + mod_width m) ` set island)) - minX
         \<and> h = Max (insert 0 ((\<lambda>m. mod_y m + mod_height m) ` set island)) - minY
         \<and> x = xCoordinate ops
                  (s\<lparr>modules := ms, heap := (heap s)(n := (heap s n)\<lparr>asfTree := Some a\<rparr>)\<rparr>) n
         \<and> y = getHeight (horizontalContour s) x (x + w)
         \<and> s' = snd (packNode ops s n)
         \<longrightarrow> (\<forall>nm. map_of (modules s') nm =
                  (if nm \<in> set (asfGetModules ops a)
                   then map_option
                          (\<lambda>m. m\<lparr>mod_x := mod_x m + (x - minX), mod_y := mod_y m + (y - minY)\<rparr>)
                          (map_of ms nm)
                   else map_of ms nm))
             \<and> asfTree (heap s' n) = Some a
             \<and> horizontalContour s' = addSegment (horizontalContour s) x (x + w) (y + h)
             \<and> verticalContour s' = addSegment (verticalContour s) y (y + h) (x + w)"
    by (intro allI impI, elim conjE, rule packNode_hierarchy) assumption+
  show ?thesis using 1 2 3 4 5 6 7 8 by (intro conjI) 
qed


lemma columnPack_dom: "dom (map_of (columnPack names ms)) = dom (map_of ms)"
proof -
  have "dom (map_of (snd (fold (\<lambda>k (y, acc). case map_of acc k of
                                 None \<Rightarrow> (y, acc)
                               | Some m \<Rightarrow> (y + mod_height m, smap_set acc k (setPosition m 0 y)))
            names (y0, ms)))) = dom (map_of ms)" for y0
  proof (induction names arbitrary: y0 ms)
    case Nil
    then show ?case by simp
  next
    case (Cons a names)
    show ?case
    proof (cases "map_of ms a")
      case None
      then show ?thesis using Cons.IH [of y0 ms] by simp
    next
      case (Some m)
      then show ?thesis
        using Cons.IH [of "y0 + mod_height m" "smap_set ms a (setPosition m 0 y0)"]
        by (auto simp: dom_smap_set)
    qed
  qed
  then show ?thesis by (simp add: columnPack_def)
qed

lemma columnASF_keeps:
  "\<forall>a ms. dom (map_of (snd (asfPack columnASF a ms))) = dom (map_of ms)"
  by (simp add: columnASF_def Let_def columnPack_dom)

theorem packSubtree_coordinates_witness:
  "subtreeWithin 3 columnTree 0
   \<and> root columnTree = Some 0 \<and> getParent columnTree 0 = None
   \<and> packOrder 3 columnTree 0 = [0, 1, 2]
   \<and> map_option (\<lambda>s. (position s ''a'', position s ''b'', position s ''m''))
        (packSubtree columnASF columnTree 0)
       = Some (Some (0, 0), Some (12, 10), Some (10, 20))
   \<and> position (snd (packNode columnASF columnTree 0)) ''b'' = Some (0, 0)
   \<and> xCoordinate columnASF (snd (packNode columnASF columnTree 0)) 1 = 12
   \<and> position (snd (packNode columnASF (snd (packNode columnASF columnTree 0)) 1)) ''b''
       = Some (12, 10)"
proof -
  let ?s1 = "snd (packNode columnASF columnTree 0)"
  let ?p = "asfPack columnASF ([''b''], []) (modules ?s1)"
  let ?st1 = "?s1\<lparr>modules := snd ?p, heap := (heap ?s1)(1 := (heap ?s1 1)\<lparr>asfTree := Some (fst ?p)\<rparr>)\<rparr>"
  let ?island = "islandModules columnASF (fst ?p) (snd ?p)"
  let ?minX = "Min (insert INT_MAX (mod_x ` set ?island))"
  let ?minY = "Min (insert INT_MAX (mod_y ` set ?island))"
  let ?w = "Max (insert 0 ((\<lambda>m. mod_x m + mod_width m) ` set ?island)) - ?minX"
  let ?h = "Max (insert 0 ((\<lambda>m. mod_y m + mod_height m) ` set ?island)) - ?minY"
  let ?x = "xCoordinate columnASF ?st1 1"
  let ?y = "getHeight (horizontalContour ?s1) ?x (?x + ?w)"
  let ?s2 = "snd (packNode columnASF ?s1 1)"
  have fin: "subtreeWithin 3 columnTree 0" by code_simp
  have rt: "root columnTree = Some 0 \<and> getParent columnTree 0 = None" by code_simp
  have ord: "packOrder 3 columnTree 0 = [0, 1, 2]" by code_simp
  note t = packSubtree_coordinates [OF fin columnASF_keeps]
  have run: "packSubtree columnASF columnTree 0
               = Some (fold (\<lambda>n s. snd (packNode columnASF s n)) (packOrder 3 columnTree 0)
                         columnTree)"
    by (rule t [THEN conjunct1])
  have ev: "(\<lambda>s. (position s ''a'', position s ''b'', position s ''m''))
              (fold (\<lambda>n s. snd (packNode columnASF s n)) (packOrder 3 columnTree 0) columnTree)
            = (Some (0, 0), Some (12, 10), Some (10, 20))"
    by code_simp
  have fin_pos: "map_option (\<lambda>s. (position s ''a'', position s ''b'', position s ''m''))
        (packSubtree columnASF columnTree 0)
       = Some (Some (0, 0), Some (12, 10), Some (10, 20))"
    using run ev by simp
  have b0: "position ?s1 ''b'' = Some (0, 0)" by code_simp
  have p1: "getParent ?s1 1 = Some 0" by code_simp
  have p2: "isLeftChild ?s1 1" by code_simp
  have p3: "nodeType (heap ?s1 0) = HIERARCHY" by code_simp
  have p4: "asfTree (heap ?s1 0) = Some ([''a''], [mkSegment 0 25 10])" by code_simp
  have p5: "static_cast_int (asfGetSymmetryAxisPosition columnASF ([''a''], [mkSegment 0 25 10])) = 12"
    by code_simp
  have c5: "\<forall>pa. nodeType (heap ?s1 0) = HIERARCHY \<and> asfTree (heap ?s1 0) = Some pa
              \<longrightarrow> xCoordinate columnASF ?s1 1
                    = static_cast_int (asfGetSymmetryAxisPosition columnASF pa)"
    using t [THEN conjunct2, THEN conjunct2, THEN conjunct2, THEN conjunct2, THEN conjunct1]
      p1 p2 by blast
  have x1: "xCoordinate columnASF ?s1 1 = 12"
    using c5 p3 p4 p5 by simp
  have q1: "nodeType (heap ?s1 1) = HIERARCHY" by code_simp
  have q2: "asfTree (heap ?s1 1) = Some ([''b''], [])" by code_simp
  have q3: "distinct (asfGetModules columnASF (fst ?p))" by code_simp
  note c8 = t [THEN conjunct2, THEN conjunct2, THEN conjunct2, THEN conjunct2,
               THEN conjunct2, THEN conjunct2, THEN conjunct2, rule_format,
               of ?s1 1 "([''b''], [])" "fst ?p" "snd ?p" ?island ?minX ?minY ?w ?h ?x ?y ?s2]
  have c8': "\<forall>nm. map_of (modules ?s2) nm =
               (if nm \<in> set (asfGetModules columnASF (fst ?p))
                then map_option
                       (\<lambda>m. m\<lparr>mod_x := mod_x m + (?x - ?minX), mod_y := mod_y m + (?y - ?minY)\<rparr>)
                       (map_of (snd ?p) nm)
                else map_of (snd ?p) nm)"
    using c8 q1 q2 q3 by simp
  have rhs: "(if ''b'' \<in> set (asfGetModules columnASF (fst ?p))
                then map_option
                       (\<lambda>m. m\<lparr>mod_x := mod_x m + (?x - ?minX), mod_y := mod_y m + (?y - ?minY)\<rparr>)
                       (map_of (snd ?p) ''b'')
                else map_of (snd ?p) ''b'')
             = Some ((mkModule 20 10)\<lparr>mod_x := 12, mod_y := 10\<rparr>)"
    by code_simp
  have b1: "position ?s2 ''b'' = Some (12, 10)"
    using c8' [rule_format, of "''b''"] rhs by (simp add: position_def mkModule_def)
  show ?thesis
    using fin rt ord fin_pos b0 x1 b1 by simp
qed

lemma plainSubtree_subtreeWithin: "plainSubtree k st par n \<Longrightarrow> subtreeWithin k st n"
  by (induction k arbitrary: par n) (auto split: option.splits)

lemma plainSubtree_heap:
  "heap B = heap A \<Longrightarrow> plainSubtree k B par n = plainSubtree k A par n"
  by (induction k arbitrary: par n)
     (simp_all add: getParent_def getLeftChild_def getRightChild_def split: option.splits)

lemma xCoordinate_rel:
  assumes "heap A = heap B"
    and "\<forall>p. getParent A n = Some p \<and> nodeType (heap A p) = MODULE \<longrightarrow>
           map_of (modules A) (name (heap A p)) = map_of (modules B) (name (heap A p))"
  shows "xCoordinate ops A n = xCoordinate ops B n"
  using assms
  by (auto simp: xCoordinate_def Let_def getParent_def isLeftChild_def getLeftChild_def
        getModuleName_def split: option.splits)

lemma setPosition_sameDims: "sameDims m m' \<Longrightarrow> setPosition m x y = setPosition m' x y"
  by (cases m; cases m') (simp add: sameDims_def setPosition_def)

lemma packNode_rel:
  assumes rel: "packRel A B"
    and plain: "nodeType (heap A n) \<noteq> HIERARCHY"
    and par: "\<forall>p. getParent A n = Some p \<and> nodeType (heap A p) = MODULE \<longrightarrow>
           map_of (modules A) (name (heap A p)) = map_of (modules B) (name (heap A p))"
  shows "\<exists>c A' B'. packNode ops A n = (c, A') \<and> packNode ops B n = (c, B')
           \<and> relStep A B A' B'
           \<and> (c \<and> nodeType (heap A n) = MODULE
                  \<longrightarrow> map_of (modules A') (name (heap A n)) = map_of (modules B') (name (heap A n)))"
proof (cases "nodeType (heap A n)")
  case HIERARCHY
  then show ?thesis using plain by simp
next
  case CONTOUR
  have "\<forall>k. rel_option sameDims (map_of (modules B) k) (map_of (modules B) k)"
    by (simp add: option.rel_refl sameDims_def)
  then show ?thesis using CONTOUR rel by (auto simp: packNode_def packRel_def relStep_def)
next
  case MODULE
  have hp: "heap A = heap B" using rel by (simp add: packRel_def)
  have x: "xCoordinate ops A n = xCoordinate ops B n"
    using hp par by (rule xCoordinate_rel)
  have ro: "rel_option sameDims (map_of (modules A) (name (heap A n)))
              (map_of (modules B) (name (heap A n)))"
    using rel by (simp add: packRel_def)
  show ?thesis
  proof (cases "map_of (modules A) (name (heap A n))")
    case None
    then have "map_of (modules B) (name (heap A n)) = None" using ro by simp
    moreover have "\<forall>k. rel_option sameDims (map_of (modules B) k) (map_of (modules B) k)"
      by (simp add: option.rel_refl sameDims_def)
    ultimately show ?thesis
      using None MODULE rel hp
      by (auto simp: packNode_def packModuleNode_def getModuleName_def relStep_def)
  next
    case (Some m)
    then obtain m' where m': "map_of (modules B) (name (heap A n)) = Some m'" "sameDims m m'"
      using ro by (cases "map_of (modules B) (name (heap A n))") auto
    have sp: "\<And>x y. setPosition m x y = setPosition m' x y"
      using m'(2) by (rule setPosition_sameDims)
    have wh: "mod_width m' = mod_width m" "mod_height m' = mod_height m"
      using m'(2) by (simp_all add: sameDims_def)
    define x where "x = xCoordinate ops B n"
    define y where "y = getHeight (horizontalContour B) x (x + mod_width m)"
    define v where "v = setPosition m' x y"
    define nm where "nm = name (heap A n)"
    define A' where "A' = A\<lparr>modules := smap_set (modules A) nm v,
        horizontalContour := addSegment (horizontalContour B) x (x + mod_width m) (y + mod_height m),
        verticalContour := addSegment (verticalContour B) y (y + mod_height m) (x + mod_width m)\<rparr>"
    define B' where "B' = B\<lparr>modules := smap_set (modules B) nm v,
        horizontalContour := addSegment (horizontalContour B) x (x + mod_width m) (y + mod_height m),
        verticalContour := addSegment (verticalContour B) y (y + mod_height m) (x + mod_width m)\<rparr>"
    have cs: "horizontalContour A = horizontalContour B" "verticalContour A = verticalContour B"
      using rel by (simp_all add: packRel_def)
    have pa: "packNode ops A n = (True, A')"
      using Some MODULE \<open>xCoordinate ops A n = xCoordinate ops B n\<close> sp cs
      by (simp add: packNode_def packModuleNode_def getModuleName_def Let_def A'_def
            x_def y_def v_def nm_def)
    have pb: "packNode ops B n = (True, B')"
      using m'(1) MODULE hp wh
      by (simp add: packNode_def packModuleNode_def getModuleName_def Let_def B'_def
            x_def y_def v_def nm_def)
    have ma: "\<And>k. map_of (modules A') k = (if k = nm then Some v else map_of (modules A) k)"
      by (simp add: A'_def map_of_smap_set)
    have mb: "\<And>k. map_of (modules B') k = (if k = nm then Some v else map_of (modules B) k)"
      by (simp add: B'_def map_of_smap_set)
    have r1: "packRel A' B'"
      unfolding packRel_def
    proof (intro conjI allI)
      show "heap A' = heap B'" using hp by (simp add: A'_def B'_def)
      show "horizontalContour A' = horizontalContour B'" by (simp add: A'_def B'_def)
      show "verticalContour A' = verticalContour B'" by (simp add: A'_def B'_def)
      fix k
      have "rel_option sameDims (map_of (modules A) k) (map_of (modules B) k)"
        using rel by (simp add: packRel_def)
      then show "rel_option sameDims (map_of (modules A') k) (map_of (modules B') k)"
        unfolding ma mb by (simp add: sameDims_def)
    qed
    have r2: "heap A' = heap A" by (simp add: A'_def)
    have r3: "\<forall>k. map_of (modules A) k = map_of (modules B) k
                  \<longrightarrow> map_of (modules A') k = map_of (modules B') k"
      unfolding ma mb by simp
    have r4: "\<forall>k. map_of (modules A') k = map_of (modules B') k
                  \<or> map_of (modules B') k = map_of (modules B) k"
      unfolding ma mb by simp
    have r5: "map_of (modules A') (name (heap A n)) = map_of (modules B') (name (heap A n))"
      unfolding ma mb by (simp add: nm_def)
    have r6: "\<forall>k. rel_option sameDims (map_of (modules B) k) (map_of (modules B') k)"
    proof
      fix k
      show "rel_option sameDims (map_of (modules B) k) (map_of (modules B') k)"
      proof (cases "k = nm")
        case True
        then show ?thesis
          using m'(1) unfolding mb by (simp add: nm_def v_def sameDims_def setPosition_def)
      next
        case False
        then show ?thesis unfolding mb by (simp add: option.rel_refl sameDims_def)
      qed
    qed
    have "relStep A B A' B'"
      unfolding relStep_def using r1 r2 r3 r4 r6 by blast
    then show ?thesis
      using pa pb r5 by blast
  qed
qed

lemma sameDims_trans: "sameDims a b \<Longrightarrow> sameDims b c \<Longrightarrow> sameDims a c"
  by (simp add: sameDims_def)

lemma rel_option_sameDims_trans:
  "rel_option sameDims a b \<Longrightarrow> rel_option sameDims b c \<Longrightarrow> rel_option sameDims a c"
  by (cases a; cases b; cases c) (auto intro: sameDims_trans)

lemma relStep_refl: "packRel A B \<Longrightarrow> relStep A B A B"
  by (simp add: relStep_def option.rel_refl sameDims_def)

lemma relStep_packRel: "relStep A B A' B' \<Longrightarrow> packRel A' B'"
  by (simp add: relStep_def)

lemma relStep_heap: "relStep A B A' B' \<Longrightarrow> heap A' = heap A"
  by (simp add: relStep_def)

lemma relStep_heapB:
  assumes "relStep A B A' B'"
  shows "heap B' = heap A"
proof -
  have "heap A' = heap B'" using assms by (simp add: relStep_def packRel_def)
  moreover have "heap A' = heap A" using assms by (simp add: relStep_def)
  ultimately show ?thesis by simp
qed

lemma relStep_agree:
  "relStep A B A' B' \<Longrightarrow> map_of (modules A) k = map_of (modules B) k
     \<Longrightarrow> map_of (modules A') k = map_of (modules B') k"
  by (simp add: relStep_def)

lemma relStep_untouched:
  "relStep A B A' B' \<Longrightarrow> map_of (modules A') k \<noteq> map_of (modules B') k
     \<Longrightarrow> map_of (modules B') k = map_of (modules B) k"
  unfolding relStep_def by blast

lemma relStep_dims:
  "relStep A B A' B' \<Longrightarrow> rel_option sameDims (map_of (modules B) k) (map_of (modules B') k)"
  by (simp add: relStep_def)

lemma relStep_trans:
  assumes "relStep A B A1 B1" "relStep A1 B1 A2 B2"
  shows "relStep A B A2 B2"
  unfolding relStep_def
proof (intro conjI allI impI)
  show "packRel A2 B2" using assms(2) by (rule relStep_packRel)
  show "heap A2 = heap A"
    using relStep_heap [OF assms(1)] relStep_heap [OF assms(2)] by simp
  fix k
  show "map_of (modules A2) k = map_of (modules B2) k"
    if "map_of (modules A) k = map_of (modules B) k"
    using relStep_agree [OF assms(2) relStep_agree [OF assms(1) that]] .
  show "map_of (modules A2) k = map_of (modules B2) k \<or> map_of (modules B2) k = map_of (modules B) k"
  proof (cases "map_of (modules A2) k = map_of (modules B2) k")
    case True
    then show ?thesis by simp
  next
    case False
    have 2: "map_of (modules B2) k = map_of (modules B1) k"
      using relStep_untouched [OF assms(2) False] .
    have "map_of (modules A1) k \<noteq> map_of (modules B1) k"
      using relStep_agree [OF assms(2), of k] False by blast
    from relStep_untouched [OF assms(1) this] show ?thesis using 2 by simp
  qed
  show "rel_option sameDims (map_of (modules B) k) (map_of (modules B2) k)"
    using relStep_dims [OF assms(1), of k] relStep_dims [OF assms(2), of k]
    by (rule rel_option_sameDims_trans)
qed

lemma packSubtree_rel:
  assumes "plainSubtree k A par n"
    and "packRel A B"
    and "\<forall>p. par = Some p \<and> nodeType (heap A p) = MODULE \<longrightarrow>
           map_of (modules A) (name (heap A p)) = map_of (modules B) (name (heap A p))"
  shows "\<exists>A' B'. packSubtree ops A n = Some A' \<and> packSubtree ops B n = Some B'
           \<and> relStep A B A' B'"
  using assms
proof (induction k arbitrary: A B par n)
  case 0
  then show ?case by simp
next
  case (Suc k)
  have gp: "getParent A n = par" and nt: "nodeType (heap A n) \<noteq> HIERARCHY"
    and lc: "\<And>l. getLeftChild A n = Some l \<Longrightarrow> plainSubtree k A (Some n) l"
    and rc: "\<And>r. getRightChild A n = Some r \<Longrightarrow> plainSubtree k A (Some n) r"
    using Suc.prems(1) by (auto split: option.splits)
  have par': "\<forall>p. getParent A n = Some p \<and> nodeType (heap A p) = MODULE \<longrightarrow>
           map_of (modules A) (name (heap A p)) = map_of (modules B) (name (heap A p))"
    using Suc.prems(3) gp by simp
  from packNode_rel [OF Suc.prems(2) nt par', of ops]
  obtain c A1 B1 where pn: "packNode ops A n = (c, A1)" "packNode ops B n = (c, B1)"
    and s1: "relStep A B A1 B1"
    and ag: "c \<and> nodeType (heap A n) = MODULE
               \<longrightarrow> map_of (modules A1) (name (heap A n)) = map_of (modules B1) (name (heap A n))"
    by blast
  show ?case
  proof (cases c)
    case False
    have "packSubtree ops A n = Some A1"
      using pn(1) False by (subst packSubtree.simps) simp
    moreover have "packSubtree ops B n = Some B1"
      using pn(2) False by (subst packSubtree.simps) simp
    ultimately show ?thesis using s1 by blast
  next
    case True
    have h1: "heap A1 = heap A" "heap B1 = heap A"
      using relStep_heap [OF s1] relStep_heapB [OF s1] by simp_all
    have r1: "packRel A1 B1" using s1 by (rule relStep_packRel)
    have agn: "\<forall>p. Some n = Some p \<and> nodeType (heap A1 p) = MODULE \<longrightarrow>
           map_of (modules A1) (name (heap A1 p)) = map_of (modules B1) (name (heap A1 p))"
      using ag True h1 by simp
    have "\<exists>A2 B2. (case getLeftChild A1 n of None \<Rightarrow> Some A1 | Some l \<Rightarrow> packSubtree ops A1 l) = Some A2
            \<and> (case getLeftChild B1 n of None \<Rightarrow> Some B1 | Some l \<Rightarrow> packSubtree ops B1 l) = Some B2
            \<and> relStep A1 B1 A2 B2"
    proof (cases "getLeftChild A n")
      case None
      then show ?thesis
        using h1 r1 by (simp add: getLeftChild_def relStep_refl)
    next
      case (Some l)
      have "plainSubtree k A1 (Some n) l"
        using lc [OF Some] plainSubtree_heap [OF h1(1), of k "Some n" l] by simp
      from Suc.IH [OF this r1 agn] show ?thesis
        using Some h1 by (simp add: getLeftChild_def)
    qed
    then obtain A2 B2 where l:
      "(case getLeftChild A1 n of None \<Rightarrow> Some A1 | Some l \<Rightarrow> packSubtree ops A1 l) = Some A2"
      "(case getLeftChild B1 n of None \<Rightarrow> Some B1 | Some l \<Rightarrow> packSubtree ops B1 l) = Some B2"
      "relStep A1 B1 A2 B2" by blast
    have h2: "heap A2 = heap A" "heap B2 = heap A"
      using relStep_heap [OF l(3)] relStep_heapB [OF l(3)] h1 by simp_all
    have r2: "packRel A2 B2" using l(3) by (rule relStep_packRel)
    have agn2: "\<forall>p. Some n = Some p \<and> nodeType (heap A2 p) = MODULE \<longrightarrow>
           map_of (modules A2) (name (heap A2 p)) = map_of (modules B2) (name (heap A2 p))"
      using agn relStep_agree [OF l(3), of "name (heap A n)"] h1 h2 by simp
    have "\<exists>A3 B3. (case getRightChild A2 n of None \<Rightarrow> Some A2 | Some r \<Rightarrow> packSubtree ops A2 r) = Some A3
            \<and> (case getRightChild B2 n of None \<Rightarrow> Some B2 | Some r \<Rightarrow> packSubtree ops B2 r) = Some B3
            \<and> relStep A2 B2 A3 B3"
    proof (cases "getRightChild A n")
      case None
      then show ?thesis
        using h2 r2 by (simp add: getRightChild_def relStep_refl)
    next
      case (Some r)
      have "plainSubtree k A2 (Some n) r"
        using rc [OF Some] plainSubtree_heap [OF h2(1), of k "Some n" r] by simp
      from Suc.IH [OF this r2 agn2] show ?thesis
        using Some h2 by (simp add: getRightChild_def)
    qed
    then obtain A3 B3 where r:
      "(case getRightChild A2 n of None \<Rightarrow> Some A2 | Some r \<Rightarrow> packSubtree ops A2 r) = Some A3"
      "(case getRightChild B2 n of None \<Rightarrow> Some B2 | Some r \<Rightarrow> packSubtree ops B2 r) = Some B3"
      "relStep A2 B2 A3 B3" by blast
    have pa: "packSubtree ops A n = Some A3"
      using pn(1) True l(1) r(1) by (subst packSubtree.simps) simp
    have pb: "packSubtree ops B n = Some B3"
      using pn(2) True l(2) r(2) by (subst packSubtree.simps) simp
    have "relStep A B A3 B3"
      using relStep_trans [OF relStep_trans [OF s1 l(3)] r(3)] .
    then show ?thesis using pa pb by blast
  qed
qed

lemma clear_is_empty: "clear c = emptyContour"
  by (cases c) (simp add: clear_def emptyContour_def)

lemma updateContourNodes_no_groups:
  "symmetryGroupNodes st = [] \<Longrightarrow> updateContourNodes ops st = Some st"
  by (simp add: updateContourNodes_def)

lemma packRel_refl: "packRel A A"
  by (simp add: packRel_def option.rel_refl sameDims_def)

lemma pack_full:
  assumes "root st = Some r" "modifiedSubtrees st = []"
    and "packSubtree ops
           (st\<lparr>horizontalContour := addSegment emptyContour 0 INT_MAX 0,
               verticalContour := addSegment emptyContour 0 INT_MAX 0\<rparr>) r = Some A1"
    and "symmetryGroupNodes A1 = []"
  shows "pack ops st =
           Some (True, A1\<lparr>totalArea := boundingArea (modules A1), isPacked := True\<rparr>)"
  using assms by (simp add: pack_def clear_is_empty updateContourNodes_no_groups)

text \<open>
  Packing twice where no island is involved. For a tree without symmetry islands (no
  Hierarchy node under the root, no entry in \<open>symmetryGroupNodes\<close>) whose root has no
  parent and whose child links are mirrored by the parent links, and with nothing marked
  in \<open>modifiedSubtrees\<close>, two consecutive calls of \<open>pack()\<close> both succeed and the second
  leaves every module where the first put it.
\<close>

lemma pack_twice_without_islands:
  assumes "root st = Some r"
    and "modifiedSubtrees st = []"
    and "symmetryGroupNodes st = []"
    and "plainSubtree k st None r"
  shows "\<exists>s1 s2. pack ops st = Some (True, s1) \<and> pack ops s1 = Some (True, s2)
           \<and> (\<forall>nm. map_of (modules s2) nm = map_of (modules s1) nm)
           \<and> (\<forall>nm. position s2 nm = position s1 nm)"
proof -
  define base where "base = addSegment emptyContour 0 INT_MAX 0"
  define A where "A = st\<lparr>horizontalContour := base, verticalContour := base\<rparr>"
  have hA: "heap A = heap st" by (simp add: A_def)
  have pA: "plainSubtree k A None r"
    using assms(4) plainSubtree_heap [OF hA, of k None r] by simp
  have triv: "\<forall>p. None = Some p \<and> nodeType (heap A p) = MODULE \<longrightarrow>
           map_of (modules A) (name (heap A p)) = map_of (modules A) (name (heap A p))"
    by simp
  from packSubtree_rel [OF pA packRel_refl triv, of ops]
  obtain A1 A1' where a1: "packSubtree ops A r = Some A1" "packSubtree ops A r = Some A1'"
    "relStep A A A1 A1'" by blast
  have eq1: "A1' = A1" using a1(1,2) by simp
  obtain T where t: "packSubtree ops A r = Some T" "sameTree A T"
    using packSubtree_total [OF plainSubtree_subtreeWithin [OF pA], of ops] by blast
  have st1: "sameTree A A1" using t a1(1) by simp
  have g1: "symmetryGroupNodes A1 = []" "root A1 = Some r" "modifiedSubtrees A1 = []"
    using st1 assms(1-3) by (simp_all add: sameTree_def A_def)
  define s1 where "s1 = A1\<lparr>totalArea := boundingArea (modules A1), isPacked := True\<rparr>"
  have p1: "pack ops st = Some (True, s1)"
    unfolding s1_def
    using pack_full [OF assms(1,2) _ g1(1), of ops] a1(1) by (simp add: A_def base_def)
  define B where "B = s1\<lparr>horizontalContour := base, verticalContour := base\<rparr>"
  have hB: "heap B = heap A"
    using relStep_heap [OF a1(3)] by (simp add: B_def s1_def)
  have mB: "modules B = modules A1" by (simp add: B_def s1_def)
  have relAB: "packRel A B"
    unfolding packRel_def
  proof (intro conjI allI)
    show "heap A = heap B" using hB by simp
    show "horizontalContour A = horizontalContour B" by (simp add: A_def B_def)
    show "verticalContour A = verticalContour B" by (simp add: A_def B_def)
    fix k
    show "rel_option sameDims (map_of (modules A) k) (map_of (modules B) k)"
      using relStep_dims [OF a1(3), of k] eq1 mB by simp
  qed
  have trivB: "\<forall>p. None = Some p \<and> nodeType (heap A p) = MODULE \<longrightarrow>
           map_of (modules A) (name (heap A p)) = map_of (modules B) (name (heap A p))"
    by simp
  from packSubtree_rel [OF pA relAB trivB, of ops]
  obtain A2 B2 where a2: "packSubtree ops A r = Some A2" "packSubtree ops B r = Some B2"
    "relStep A B A2 B2" by blast
  have eq2: "A2 = A1" using a1(1) a2(1) by simp
  have same: "map_of (modules B2) nm = map_of (modules A1) nm" for nm
  proof (cases "map_of (modules A2) nm = map_of (modules B2) nm")
    case True
    then show ?thesis using eq2 by simp
  next
    case False
    from relStep_untouched [OF a2(3) False] show ?thesis using mB by simp
  qed
  have pB: "plainSubtree k B None r"
    using pA plainSubtree_heap [OF hB, of k None r] by simp
  obtain T2 where t2: "packSubtree ops B r = Some T2" "sameTree B T2"
    using packSubtree_total [OF plainSubtree_subtreeWithin [OF pB], of ops] by blast
  have st2: "sameTree B B2" using t2 a2(2) by simp
  have g2: "symmetryGroupNodes B2 = []"
    using st2 g1(1) by (simp add: sameTree_def B_def s1_def)
  have r1: "root s1 = Some r" "modifiedSubtrees s1 = []"
    using g1 by (simp_all add: s1_def)
  define s2 where "s2 = B2\<lparr>totalArea := boundingArea (modules B2), isPacked := True\<rparr>"
  have p2: "pack ops s1 = Some (True, s2)"
    unfolding s2_def
    using pack_full [OF r1 _ g2, of ops] a2(2) by (simp add: B_def base_def)
  have m: "\<forall>nm. map_of (modules s2) nm = map_of (modules s1) nm"
    using same by (simp add: s1_def s2_def)
  then have "\<forall>nm. position s2 nm = position s1 nm"
    by (simp add: position_def)
  then show ?thesis using p1 p2 m by blast
qed

lemma pack_twice_without_islands_witness:
  "\<exists>s1 s2. pack stubASF builtTwo = Some (True, s1) \<and> pack stubASF s1 = Some (True, s2)
           \<and> (\<forall>nm. map_of (modules s2) nm = map_of (modules s1) nm)
           \<and> (\<forall>nm. position s2 nm = position s1 nm)"
proof -
  have 1: "root builtTwo = Some 1" by code_simp
  have 2: "modifiedSubtrees builtTwo = []" by code_simp
  have 3: "symmetryGroupNodes builtTwo = []" by code_simp
  have 4: "plainSubtree 2 builtTwo None 1" by code_simp
  show ?thesis
    by (rule pack_twice_without_islands [OF 1 2 3 4])
qed

end
